theory Spec2Isabelle
  imports Main
begin

section \<open>Errors and the tables of the runtime\<close>

text \<open>
  The two kinds of exception the modelled code can raise: the \<^verbatim>\<open>TypeError\<close> of the
  language (reading a property of \<^verbatim>\<open>null\<close> or \<^verbatim>\<open>undefined\<close>, the \<^verbatim>\<open>in\<close> operator on
  a value that is not an object, calling what is not a function) and the
  \<^verbatim>\<open>AssertionError\<close> of the assertion library.
\<close>

datatype error = TypeError | AssertionError

text \<open>
  A property lookup \<^verbatim>\<open>obj[key]\<close> and the operator \<^verbatim>\<open>key in obj\<close> look at the own
  properties of the object and then along its prototype chain. For an object written as a
  literal the chain is \<^verbatim>\<open>Object.prototype\<close>, whose property names are these (the standard
  ones and those of Annex B, none of them enumerable); for an array \<^verbatim>\<open>Array.prototype\<close>
  comes first (names as of ECMAScript 2023).
\<close>

definition object_prototype_keys :: "string list" where
  "object_prototype_keys =
     [''constructor'', ''__defineGetter__'', ''__defineSetter__'', ''hasOwnProperty'',
      ''__lookupGetter__'', ''__lookupSetter__'', ''isPrototypeOf'', ''propertyIsEnumerable'',
      ''toString'', ''valueOf'', ''__proto__'', ''toLocaleString'']"

definition array_prototype_keys :: "string list" where
  "array_prototype_keys =
     [''length'', ''constructor'', ''at'', ''concat'', ''copyWithin'', ''fill'', ''find'',
      ''findIndex'', ''findLast'', ''findLastIndex'', ''lastIndexOf'', ''pop'', ''push'',
      ''reverse'', ''shift'', ''unshift'', ''slice'', ''sort'', ''splice'', ''includes'',
      ''indexOf'', ''join'', ''keys'', ''entries'', ''values'', ''forEach'', ''filter'',
      ''flat'', ''flatMap'', ''map'', ''every'', ''some'', ''reduce'', ''reduceRight'',
      ''toLocaleString'', ''toString'', ''toReversed'', ''toSorted'', ''toSpliced'', ''with'']"

text \<open>Decimal numerals, as \<^verbatim>\<open>String(n)\<close> writes an integer and as array indices are named.\<close>

fun show_nat :: "nat \<Rightarrow> string" where
  "show_nat n =
     (if n < 10 then [''0123456789'' ! n]
      else show_nat (n div 10) @ [''0123456789'' ! (n mod 10)])"

declare show_nat.simps [simp del]

definition show_int :: "int \<Rightarrow> string" where
  "show_int i = (if i < 0 then CHR ''-'' # show_nat (nat (- i)) else show_nat (nat i))"

definition indices :: "'a list \<Rightarrow> string list" where
  "indices xs = map show_nat [0..<length xs]"


section \<open>Retry with exponential backoff\<close>

text \<open>
  \<^verbatim>\<open>retryWithBackoff(fn, maxAttempts = 3, initialDelay = 1000)\<close> of
  \<^verbatim>\<open>utils/test-utils.js\<close>. The operation \<open>fn\<close> is a zero-argument asynchronous
  function with effects of its own: it is a state transformer that either rejects
  (\<open>Inl\<close>, the thrown value) or resolves (\<open>Inr\<close>). What can be observed of a run is
  the order of invocations of \<open>fn\<close> and of calls \<^verbatim>\<open>delay(ms)\<close>: the trace.

  \<open>maxAttempts\<close> and \<open>initialDelay\<close> are integers that a double holds, and the
  arithmetic of the loop is that of doubles. \<^verbatim>\<open>Math.pow(2, n)\<close> is the exact power up to
  \<open>n = 1023\<close> and \<^verbatim>\<open>Infinity\<close> from 1024 on. The product of the delay with a power of
  two is exact while its magnitude is below \<open>2 ^ 1024\<close> and an infinity of its sign from
  there on; with \<^verbatim>\<open>Infinity\<close> it is an infinity of the sign of the delay, and
  \<^verbatim>\<open>NaN\<close> for the delay 0.
\<close>

datatype number = Finite int | PosInfinity | NegInfinity | NaN

definition pow2 :: "nat \<Rightarrow> number" where
  "pow2 n = (if n < 1024 then Finite (2 ^ n) else PosInfinity)"

fun times_number :: "int \<Rightarrow> number \<Rightarrow> number" where
  "times_number d (Finite p) =
     (if \<bar>d * p\<bar> < 2 ^ 1024 then Finite (d * p)
      else if 0 < d * p then PosInfinity else NegInfinity)"
| "times_number d PosInfinity =
     (if d = 0 then NaN else if 0 < d then PosInfinity else NegInfinity)"
| "times_number d NegInfinity =
     (if d = 0 then NaN else if 0 < d then NegInfinity else PosInfinity)"
| "times_number d NaN = NaN"

text \<open>
  \<^verbatim>\<open>attempt++\<close>: the counter starts at 1, so it is at most \<open>2 ^ 53\<close>, and there adding
  1 gives \<open>2 ^ 53\<close> again (the sum is rounded to the nearest double).
\<close>

definition increment :: "int \<Rightarrow> int" where
  "increment a = (if a < 2 ^ 53 then a + 1 else a)"

datatype event = Invoke | Wait number

text \<open>
  How the returned promise settles: with the value of \<open>fn\<close>, with the error caught
  from \<open>fn\<close> and thrown again, or with \<open>undefined\<close> when the function body ends
  without a \<^verbatim>\<open>return\<close>.
\<close>

datatype ('e, 'a) outcome = Returned 'a | Threw 'e | ReturnedUndefined

record ('e, 'a, 's) run =
  outcome :: "('e, 'a) outcome"
  final :: 's
  trace :: "event list"

type_synonym ('e, 'a, 's) operation = "'s \<Rightarrow> ('e + 'a) \<times> 's"

text \<open>
  The loop. It need not end (the operation may fail for ever while the counter stays below
  \<open>maxAttempts\<close>), so the result is an option: \<open>None\<close> is the promise that never
  settles.
\<close>

partial_function (option) retry_loop ::
  "('e, 'a, 's) operation \<Rightarrow> int \<Rightarrow> int \<Rightarrow> int \<Rightarrow> 's \<Rightarrow> event list \<Rightarrow> ('e, 'a, 's) run option" where
  "retry_loop fn maxAttempts initialDelay attempt s tr =
     (if attempt \<le> maxAttempts then
        (case fn s of
           (Inr v, s') \<Rightarrow> Some \<lparr>outcome = Returned v, final = s', trace = tr @ [Invoke]\<rparr>
         | (Inl e, s') \<Rightarrow>
             if attempt = maxAttempts
             then Some \<lparr>outcome = Threw e, final = s', trace = tr @ [Invoke]\<rparr>
             else retry_loop fn maxAttempts initialDelay (increment attempt) s'
                    (tr @ [Invoke,
                           Wait (times_number initialDelay (pow2 (nat (attempt - 1))))]))
      else Some \<lparr>outcome = ReturnedUndefined, final = s, trace = tr\<rparr>)"

declare retry_loop.simps [code]

text \<open>An omitted argument (\<open>None\<close>) takes the default of the parameter list.\<close>

definition retryWithBackoff ::
  "('e, 'a, 's) operation \<Rightarrow> int option \<Rightarrow> int option \<Rightarrow> 's \<Rightarrow> ('e, 'a, 's) run option" where
  "retryWithBackoff fn maxAttempts initialDelay s =
     retry_loop fn (case maxAttempts of None \<Rightarrow> 3 | Some m \<Rightarrow> m)
       (case initialDelay of None \<Rightarrow> 1000 | Some d \<Rightarrow> d) 1 s []"

text \<open>
  The state in which invocation number \<open>n\<close> (counted from 0) of \<open>fn\<close> starts when
  the invocations follow each other, and how that invocation settles.
\<close>

primrec state_after :: "('e, 'a, 's) operation \<Rightarrow> 's \<Rightarrow> nat \<Rightarrow> 's" where
  "state_after fn s 0 = s"
| "state_after fn s (Suc n) = state_after fn (snd (fn s)) n"

definition result_of :: "('e, 'a, 's) operation \<Rightarrow> 's \<Rightarrow> nat \<Rightarrow> 'e + 'a" where
  "result_of fn s n = fst (fn (state_after fn s n))"

definition calls :: "('e, 'a, 's) run \<Rightarrow> nat" where
  "calls r = length (filter (\<lambda>ev. ev = Invoke) (trace r))"



text \<open>
  The value of the counter at invocation number \<open>j\<close> (counted from 0), and the events
  of \<open>k\<close> failed attempts from invocation \<open>j\<close> on, each followed by its wait.
\<close>

definition attempt_number :: "nat \<Rightarrow> int" where
  "attempt_number j = min (int j + 1) (2 ^ 53)"

primrec backoff_events :: "int \<Rightarrow> nat \<Rightarrow> nat \<Rightarrow> event list" where
  "backoff_events d j 0 = []"
| "backoff_events d j (Suc k) =
     Invoke # Wait (times_number d (pow2 (nat (attempt_number j - 1))))
       # backoff_events d (Suc j) k"


section \<open>Config resolver\<close>

text \<open>
  \<^verbatim>\<open>config/config.js\<close>. The module-level object \<^verbatim>\<open>config\<close> holds the base settings and,
  under \<^verbatim>\<open>environments\<close>, one object of overrides for each named environment. An override
  object sets some of the fields; a field it does not set is \<open>None\<close>. Header sets and the
  mapping of environments are dictionaries.
\<close>

record retry_policy =
  attempts :: int
  delay :: int

record env_override =
  env_baseUrl :: "string option"
  env_headers :: "(string \<rightharpoonup> string) option"
  env_timeout :: "int option"
  env_retry :: "retry_policy option"

record configuration =
  baseUrl :: string
  headers :: "string \<rightharpoonup> string"
  timeout :: int
  retry :: retry_policy
  environments :: "string \<rightharpoonup> env_override"

definition config :: configuration where
  "config =
     \<lparr>baseUrl = ''https://jsonplaceholder.typicode.com'',
      headers = [''Content-Type'' \<mapsto> ''application/json'',
                 ''Accept'' \<mapsto> ''application/json'',
                 ''User-Agent'' \<mapsto> ''ModularTestFramework/1.0.0''],
      timeout = 10000,
      retry = \<lparr>attempts = 3, delay = 1000\<rparr>,
      environments =
        [''development'' \<mapsto>
           \<lparr>env_baseUrl = Some ''https://jsonplaceholder.typicode.com'', env_headers = None,
            env_timeout = Some 15000, env_retry = None\<rparr>,
         ''staging'' \<mapsto>
           \<lparr>env_baseUrl = Some ''https://jsonplaceholder-staging.typicode.com'',
            env_headers = None, env_timeout = Some 10000, env_retry = None\<rparr>,
         ''production'' \<mapsto>
           \<lparr>env_baseUrl = Some ''https://jsonplaceholder.typicode.com'', env_headers = None,
            env_timeout = Some 5000, env_retry = None\<rparr>]\<rparr>"

text \<open>
  What \<^verbatim>\<open>config.environments[name]\<close> evaluates to: the override object stored under the
  name, a member inherited from \<^verbatim>\<open>Object.prototype\<close> (a built-in function or, for
  \<^verbatim>\<open>__proto__\<close>, the prototype itself), or \<^verbatim>\<open>undefined\<close>. An inherited member is truthy,
  has no enumerable own property and no property \<^verbatim>\<open>headers\<close>.
\<close>

datatype env_lookup = Own env_override | Inherited | Absent

definition lookup_environment :: "configuration \<Rightarrow> string \<Rightarrow> env_lookup" where
  "lookup_environment c name =
     (case environments c name of
        Some ov \<Rightarrow> Own ov
      | None \<Rightarrow> if name \<in> set object_prototype_keys then Inherited else Absent)"

text \<open>
  \<^verbatim>\<open>getEnvironmentConfig(environment = 'development')\<close>. The operator \<^verbatim>\<open>||\<close> takes the
  development overrides when the lookup gives \<^verbatim>\<open>undefined\<close>. Spreading \<^verbatim>\<open>undefined\<close> or
  an inherited member copies nothing; reading \<^verbatim>\<open>envConfig.headers\<close> raises when
  \<^verbatim>\<open>envConfig\<close> is \<^verbatim>\<open>undefined\<close>, which needs a configuration without a development
  entry. The configuration is a parameter: the function reads the exported, mutable object.
\<close>

definition getEnvironmentConfig :: "configuration \<Rightarrow> string option \<Rightarrow> error + configuration" where
  "getEnvironmentConfig c environment =
     (let name = (case environment of None \<Rightarrow> ''development'' | Some n \<Rightarrow> n);
          envConfig = (case lookup_environment c name of
                         Absent \<Rightarrow> lookup_environment c ''development''
                       | found \<Rightarrow> found)
      in case envConfig of
           Absent \<Rightarrow> Inl TypeError
         | Inherited \<Rightarrow> Inr (c\<lparr>headers := headers c ++ Map.empty\<rparr>)
         | Own ov \<Rightarrow>
             Inr \<lparr>baseUrl = (case env_baseUrl ov of Some u \<Rightarrow> u | None \<Rightarrow> baseUrl c),
                  headers = headers c ++ (case env_headers ov of Some h \<Rightarrow> h | None \<Rightarrow> Map.empty),
                  timeout = (case env_timeout ov of Some t \<Rightarrow> t | None \<Rightarrow> timeout c),
                  retry = (case env_retry ov of Some r \<Rightarrow> r | None \<Rightarrow> retry c),
                  environments = environments c\<rparr>)"

text \<open>
  \<^verbatim>\<open>getCurrentEnvironment()\<close>: the first of \<^verbatim>\<open>NODE_ENV\<close> and \<^verbatim>\<open>TEST_ENV\<close> that is set
  and not empty, else \<^verbatim>\<open>development\<close>. The process environment is a parameter.
\<close>

definition getCurrentEnvironment :: "(string \<rightharpoonup> string) \<Rightarrow> string" where
  "getCurrentEnvironment env =
     (case env ''NODE_ENV'' of
        Some v \<Rightarrow>
          if v \<noteq> [] then v
          else (case env ''TEST_ENV'' of
                  Some w \<Rightarrow> if w \<noteq> [] then w else ''development''
                | None \<Rightarrow> ''development'')
      | None \<Rightarrow>
          (case env ''TEST_ENV'' of
             Some w \<Rightarrow> if w \<noteq> [] then w else ''development''
           | None \<Rightarrow> ''development''))"


section \<open>Schema/response validator\<close>

text \<open>
  \<^verbatim>\<open>validateResponseSchema(response, schema)\<close> of \<^verbatim>\<open>utils/test-utils.js\<close> reads the
  structure of its arguments and changes neither, so both are values given by their
  structure: what a JSON body parses to, and \<^verbatim>\<open>undefined\<close>. The pairs of an object are in
  the order in which \<^verbatim>\<open>for ... in\<close> enumerates its keys and the keys are distinct. A
  number is an integer of magnitude below \<open>10 ^ 21\<close> here, the range in which a template
  literal writes every digit; the validator looks at the type of a number in the data and
  writes a number out only when it stands in the schema.
\<close>

datatype json =
  JUndefined | JNull | JBool bool | JNum int | JStr string
  | JArr "json list" | JObj "(string \<times> json) list"

text \<open>
  What a property read gives: a value of the data, or a built-in function found on the
  prototype chain (\<^verbatim>\<open>data['toString']\<close>).
\<close>

datatype member = Value json | Builtin

fun join :: "string \<Rightarrow> string list \<Rightarrow> string" where
  "join sep [] = []"
| "join sep [x] = x"
| "join sep (x # y # ys) = x @ sep @ join sep (y # ys)"

text \<open>The conversion to a string a template literal applies, \<^verbatim>\<open>`${v}`\<close>.\<close>

fun to_string :: "json \<Rightarrow> string" where
  "to_string JUndefined = ''undefined''"
| "to_string JNull = ''null''"
| "to_string (JBool b) = (if b then ''true'' else ''false'')"
| "to_string (JNum n) = show_int n"
| "to_string (JStr s) = s"
| "to_string (JArr xs) =
     join '','' (map (\<lambda>x. if x = JUndefined \<or> x = JNull then [] else to_string x) xs)"
| "to_string (JObj kvs) = ''[object Object]''"

fun typeof :: "member \<Rightarrow> string" where
  "typeof Builtin = ''function''"
| "typeof (Value JUndefined) = ''undefined''"
| "typeof (Value JNull) = ''object''"
| "typeof (Value (JBool b)) = ''boolean''"
| "typeof (Value (JNum n)) = ''number''"
| "typeof (Value (JStr s)) = ''string''"
| "typeof (Value (JArr xs)) = ''object''"
| "typeof (Value (JObj kvs)) = ''object''"

fun isArray :: "member \<Rightarrow> bool" where
  "isArray (Value (JArr xs)) = True"
| "isArray m = False"

fun is_object :: "json \<Rightarrow> bool" where
  "is_object (JObj kvs) = True"
| "is_object (JArr xs) = True"
| "is_object v = False"

text \<open>
  \<^verbatim>\<open>for (const key in schemaObj)\<close> together with the reads \<^verbatim>\<open>schemaObj[key]\<close> of the loop
  body: the enumerable keys, each with its value. An object gives its own pairs, an array
  and a string their indices (a string's values are its characters), every other value
  nothing; the loop does not raise on \<^verbatim>\<open>null\<close> and \<^verbatim>\<open>undefined\<close>.
\<close>

fun for_in :: "json \<Rightarrow> (string \<times> json) list" where
  "for_in (JObj kvs) = kvs"
| "for_in (JArr xs) = zip (indices xs) xs"
| "for_in (JStr s) = zip (indices s) (map (\<lambda>c. JStr [c]) s)"
| "for_in v = []"

text \<open>The operator \<^verbatim>\<open>key in obj\<close>: a \<^verbatim>\<open>TypeError\<close> unless \<open>obj\<close> is an object or array.\<close>

fun has_property :: "json \<Rightarrow> string \<Rightarrow> error + bool" where
  "has_property (JObj kvs) key =
     Inr (key \<in> set (map fst kvs) \<or> key \<in> set object_prototype_keys)"
| "has_property (JArr xs) key =
     Inr (key \<in> set (indices xs) \<or> key \<in> set array_prototype_keys
          \<or> key \<in> set object_prototype_keys)"
| "has_property v key = Inl TypeError"

text \<open>
  The read \<^verbatim>\<open>obj[key]\<close> on an object or array. \<^verbatim>\<open>__proto__\<close> gives the prototype, an
  object (an array for arrays) without enumerable keys.
\<close>

fun get_property :: "json \<Rightarrow> string \<Rightarrow> member" where
  "get_property (JObj kvs) key =
     (case map_of kvs key of
        Some v \<Rightarrow> Value v
      | None \<Rightarrow> if key = ''__proto__'' then Value (JObj [])
                else if key \<in> set object_prototype_keys then Builtin
                else Value JUndefined)"
| "get_property (JArr xs) key =
     (case map_of (zip (indices xs) xs) key of
        Some v \<Rightarrow> Value v
      | None \<Rightarrow> if key = ''length'' then Value (JNum (int (length xs)))
                else if key = ''__proto__'' then Value (JArr [])
                else if key \<in> set array_prototype_keys \<or> key \<in> set object_prototype_keys
                then Builtin
                else Value JUndefined)"
| "get_property v key = Value JUndefined"

definition full_path :: "string \<Rightarrow> string \<Rightarrow> string" where
  "full_path path key = (if path \<noteq> [] then path @ ''.'' @ key else key)"

text \<open>
  The termination measure of the validator: a key whose expected type is the string
  \<^verbatim>\<open>'object'\<close> can start a nested walk, which runs over the six characters of that string.
\<close>

fun weight :: "(string \<times> json) list \<Rightarrow> nat" where
  "weight [] = 0"
| "weight ((k, e) # es) = (if e = JStr ''object'' then 8 else 1) + weight es"

text \<open>
  The loop of the inner function \<^verbatim>\<open>validateObject(obj, schemaObj, path)\<close> over the keys
  still to visit. The array \<^verbatim>\<open>errors\<close> of the enclosing function is passed along and
  returned; a \<^verbatim>\<open>TypeError\<close> ends the whole call. The nested call
  \<^verbatim>\<open>validateObject(actualValue, schemaObj[key], fullPath)\<close> is the loop over the keys of
  \<^verbatim>\<open>schemaObj[key]\<close>.
\<close>

function validate_keys ::
  "json \<Rightarrow> string \<Rightarrow> (string \<times> json) list \<Rightarrow> string list \<Rightarrow> error + string list" where
  "validate_keys obj path [] errors = Inr errors"
| "validate_keys obj path ((key, expectedType) # rest) errors =
     (let fullPath = full_path path key in
      case has_property obj key of
        Inl e \<Rightarrow> Inl e
      | Inr False \<Rightarrow>
          validate_keys obj path rest (errors @ [''Missing property: '' @ fullPath])
      | Inr True \<Rightarrow>
          (let actualValue = get_property obj key;
               actualType = typeof actualValue
           in if expectedType = JStr ''array'' \<and> \<not> isArray actualValue then
                validate_keys obj path rest
                  (errors @ [''Property '' @ fullPath @ '' should be an array, got '' @ actualType])
              else if expectedType \<noteq> JStr ''array'' \<and> JStr actualType \<noteq> expectedType then
                validate_keys obj path rest
                  (errors @ [''Property '' @ fullPath @ '' should be '' @ to_string expectedType
                             @ '', got '' @ actualType])
              else if expectedType = JStr ''object'' \<and> actualValue \<noteq> Value JNull then
                (case validate_keys (case actualValue of Value v \<Rightarrow> v | Builtin \<Rightarrow> JUndefined)
                        fullPath (for_in expectedType) errors of
                   Inl e \<Rightarrow> Inl e
                 | Inr errors' \<Rightarrow> validate_keys obj path rest errors')
              else validate_keys obj path rest errors))"
  by pat_completeness auto
termination
  by (relation "measure (\<lambda>(obj, path, entries, errors). weight entries)")
    (auto simp: indices_def)

definition validateObject :: "json \<Rightarrow> json \<Rightarrow> string \<Rightarrow> string list \<Rightarrow> error + string list" where
  "validateObject obj schemaObj path errors = validate_keys obj path (for_in schemaObj) errors"

record validation =
  isValid :: bool
  errors :: "string list"

text \<open>
  \<^verbatim>\<open>response.data\<close>: the response is any value; \<^verbatim>\<open>data\<close> is a name no prototype
  provides.
\<close>

fun read_data :: "json \<Rightarrow> error + json" where
  "read_data JUndefined = Inl TypeError"
| "read_data JNull = Inl TypeError"
| "read_data (JObj kvs) = Inr (case map_of kvs ''data'' of Some v \<Rightarrow> v | None \<Rightarrow> JUndefined)"
| "read_data v = Inr JUndefined"

definition validateResponseSchema :: "json \<Rightarrow> json \<Rightarrow> error + validation" where
  "validateResponseSchema response schema =
     (case read_data response of
        Inl e \<Rightarrow> Inl e
      | Inr data \<Rightarrow>
          (case validateObject data schema [] [] of
             Inl e \<Rightarrow> Inl e
           | Inr errs \<Rightarrow> Inr \<lparr>isValid = (length errs = 0), errors = errs\<rparr>))"


section \<open>Assertion engine\<close>

text \<open>
  The class \<^verbatim>\<open>FluentAssertions\<close>. Its methods return \<^verbatim>\<open>this\<close> and the library
  compares with \<^verbatim>\<open>===\<close>, so here the identity of objects matters: a value is a
  primitive, a reference to an array or object of the heap, or a built-in function of the
  runtime. The heap is the list of the objects allocated so far; a new object gets the next
  address.
\<close>

datatype jsval =
  VUndefined | VNull | VBool bool | VNum int | VStr string | VRef nat | VNative string

datatype jsobj = OArray "jsval list" | OObject "(string \<times> jsval) list"

type_synonym heap = "jsobj list"

definition obj_at :: "heap \<Rightarrow> nat \<Rightarrow> jsobj option" where
  "obj_at h a = (if a < length h then Some (h ! a) else None)"

text \<open>
  What the class uses and does not define: the assertions of chai, each deciding whether
  \<^verbatim>\<open>expect(target).to...\<close> passes on the current heap (it throws an
  \<^verbatim>\<open>AssertionError\<close> otherwise), and what the runtime finds on the prototype chain for a
  key that is not an own property. They are parameters of the model.
\<close>

record externals =
  to_equal :: "heap \<Rightarrow> jsval \<Rightarrow> jsval \<Rightarrow> bool"
  to_be_within :: "heap \<Rightarrow> jsval \<Rightarrow> jsval \<Rightarrow> jsval \<Rightarrow> bool"
  to_be_undefined :: "heap \<Rightarrow> jsval \<Rightarrow> bool"
  to_be_null :: "heap \<Rightarrow> jsval \<Rightarrow> bool"
  to_be_oneOf :: "heap \<Rightarrow> jsval \<Rightarrow> jsval \<Rightarrow> bool"
  to_have_property :: "heap \<Rightarrow> jsval \<Rightarrow> jsval \<Rightarrow> bool"
  to_be_an :: "heap \<Rightarrow> jsval \<Rightarrow> string \<Rightarrow> bool"
  to_have_lengthOf :: "heap \<Rightarrow> jsval \<Rightarrow> jsval \<Rightarrow> bool"
  to_deep_include :: "heap \<Rightarrow> jsval \<Rightarrow> jsval \<Rightarrow> bool"
  to_deep_equal :: "heap \<Rightarrow> jsval \<Rightarrow> jsval \<Rightarrow> bool"
  to_be_below :: "heap \<Rightarrow> jsval \<Rightarrow> jsval \<Rightarrow> bool"
  prototype_member :: "heap \<Rightarrow> jsval \<Rightarrow> string \<Rightarrow> jsval"

text \<open>
  The read \<^verbatim>\<open>v.name\<close> for the names the class reads with a dot (\<^verbatim>\<open>actual\<close>,
  \<^verbatim>\<open>status\<close>, \<^verbatim>\<open>data\<close>, \<^verbatim>\<open>headers\<close>, \<^verbatim>\<open>responseTime\<close>): no prototype provides
  them, so the result is the own property or \<^verbatim>\<open>undefined\<close>.
\<close>

fun get_field :: "heap \<Rightarrow> jsval \<Rightarrow> string \<Rightarrow> error + jsval" where
  "get_field h VUndefined name = Inl TypeError"
| "get_field h VNull name = Inl TypeError"
| "get_field h (VRef a) name =
     Inr (case obj_at h a of
            Some (OObject kvs) \<Rightarrow> (case map_of kvs name of Some v \<Rightarrow> v | None \<Rightarrow> VUndefined)
          | _ \<Rightarrow> VUndefined)"
| "get_field h v name = Inr VUndefined"

text \<open>The read \<^verbatim>\<open>v[key]\<close> with a computed key.\<close>

fun own_member :: "heap \<Rightarrow> jsval \<Rightarrow> string \<Rightarrow> jsval option" where
  "own_member h (VRef a) key =
     (case obj_at h a of
        Some (OObject kvs) \<Rightarrow> map_of kvs key
      | Some (OArray xs) \<Rightarrow>
          (if key = ''length'' then Some (VNum (int (length xs)))
           else map_of (zip (indices xs) xs) key)
      | None \<Rightarrow> None)"
| "own_member h (VStr s) key =
     (if key = ''length'' then Some (VNum (int (length s)))
      else map_of (zip (indices s) (map (\<lambda>c. VStr [c]) s)) key)"
| "own_member h v key = None"

fun get_member :: "externals \<Rightarrow> heap \<Rightarrow> jsval \<Rightarrow> string \<Rightarrow> error + jsval" where
  "get_member x h VUndefined key = Inl TypeError"
| "get_member x h VNull key = Inl TypeError"
| "get_member x h v key =
     Inr (case own_member h v key of Some m \<Rightarrow> m | None \<Rightarrow> prototype_member x h v key)"

fun typeof_val :: "jsval \<Rightarrow> string" where
  "typeof_val VUndefined = ''undefined''"
| "typeof_val VNull = ''object''"
| "typeof_val (VBool b) = ''boolean''"
| "typeof_val (VNum n) = ''number''"
| "typeof_val (VStr s) = ''string''"
| "typeof_val (VRef a) = ''object''"
| "typeof_val (VNative f) = ''function''"

text \<open>\<^verbatim>\<open>Object.keys(schema)\<close>.\<close>

fun object_keys :: "heap \<Rightarrow> jsval \<Rightarrow> error + string list" where
  "object_keys h VUndefined = Inl TypeError"
| "object_keys h VNull = Inl TypeError"
| "object_keys h (VRef a) =
     Inr (case obj_at h a of
            Some (OObject kvs) \<Rightarrow> map fst kvs
          | Some (OArray xs) \<Rightarrow> indices xs
          | None \<Rightarrow> [])"
| "object_keys h (VStr s) = Inr (indices s)"
| "object_keys h v = Inr []"

text \<open>\<^verbatim>\<open>headerName.toLowerCase()\<close>, on the letters of ASCII.\<close>

definition lower_char :: "char \<Rightarrow> char" where
  "lower_char c =
     (let n = (of_char c :: nat) in if 65 \<le> n \<and> n \<le> 90 then char_of (n + 32) else c)"

fun toLowerCase :: "jsval \<Rightarrow> error + string" where
  "toLowerCase (VStr s) = Inr (map lower_char s)"
| "toLowerCase v = Inl TypeError"

text \<open>
  \<^verbatim>\<open>expectResponse(response)\<close> allocates the instance, an object whose property
  \<^verbatim>\<open>actual\<close> is the response. Every method below takes the heap and \<^verbatim>\<open>this\<close> and
  gives what it returns or throws, and the heap it leaves.
\<close>

definition expectResponse :: "heap \<Rightarrow> jsval \<Rightarrow> jsval \<times> heap" where
  "expectResponse h response = (VRef (length h), h @ [OObject [(''actual'', response)]])"

definition actual_field :: "heap \<Rightarrow> jsval \<Rightarrow> string \<Rightarrow> error + jsval" where
  "actual_field h this name =
     (case get_field h this ''actual'' of
        Inl e \<Rightarrow> Inl e
      | Inr actual \<Rightarrow> get_field h actual name)"

definition toHaveStatus :: "externals \<Rightarrow> heap \<Rightarrow> jsval \<Rightarrow> jsval \<Rightarrow> (error + jsval) \<times> heap" where
  "toHaveStatus x h this expectedStatus =
     (case actual_field h this ''status'' of
        Inl e \<Rightarrow> (Inl e, h)
      | Inr status \<Rightarrow>
          if to_equal x h status expectedStatus then (Inr this, h) else (Inl AssertionError, h))"

definition toHaveStatusInRange ::
  "externals \<Rightarrow> heap \<Rightarrow> jsval \<Rightarrow> jsval \<Rightarrow> jsval \<Rightarrow> (error + jsval) \<times> heap" where
  "toHaveStatusInRange x h this minStatus maxStatus =
     (case actual_field h this ''status'' of
        Inl e \<Rightarrow> (Inl e, h)
      | Inr status \<Rightarrow>
          if to_be_within x h status minStatus maxStatus then (Inr this, h)
          else (Inl AssertionError, h))"

definition toHaveBody :: "externals \<Rightarrow> heap \<Rightarrow> jsval \<Rightarrow> (error + jsval) \<times> heap" where
  "toHaveBody x h this =
     (case actual_field h this ''data'' of
        Inl e \<Rightarrow> (Inl e, h)
      | Inr data \<Rightarrow>
          if to_be_undefined x h data then (Inl AssertionError, h)
          else if to_be_null x h data then (Inl AssertionError, h)
          else (Inr this, h))"

text \<open>
  \<^verbatim>\<open>toHaveEmptyBody\<close> builds the list \<^verbatim>\<open>[null, undefined, '', []]\<close> for the call: its
  inner array and the list itself are new objects.
\<close>

definition toHaveEmptyBody :: "externals \<Rightarrow> heap \<Rightarrow> jsval \<Rightarrow> (error + jsval) \<times> heap" where
  "toHaveEmptyBody x h this =
     (case actual_field h this ''data'' of
        Inl e \<Rightarrow> (Inl e, h)
      | Inr data \<Rightarrow>
          (let empty = length h;
               list = length h + 1;
               h' = h @ [OArray [], OArray [VNull, VUndefined, VStr [], VRef empty]]
           in if to_be_oneOf x h' data (VRef list) then (Inr this, h')
              else (Inl AssertionError, h')))"

definition toHaveProperty :: "externals \<Rightarrow> heap \<Rightarrow> jsval \<Rightarrow> jsval \<Rightarrow> (error + jsval) \<times> heap" where
  "toHaveProperty x h this property =
     (case actual_field h this ''data'' of
        Inl e \<Rightarrow> (Inl e, h)
      | Inr data \<Rightarrow>
          if to_have_property x h data property then (Inr this, h) else (Inl AssertionError, h))"

text \<open>The callback of \<^verbatim>\<open>properties.forEach\<close>, over the elements still to visit.\<close>

fun forEach_property :: "externals \<Rightarrow> heap \<Rightarrow> jsval \<Rightarrow> jsval list \<Rightarrow> error option" where
  "forEach_property x h this [] = None"
| "forEach_property x h this (prop # props) =
     (case actual_field h this ''data'' of
        Inl e \<Rightarrow> Some e
      | Inr data \<Rightarrow>
          if to_have_property x h data prop then forEach_property x h this props
          else Some AssertionError)"

definition toHaveProperties :: "externals \<Rightarrow> heap \<Rightarrow> jsval \<Rightarrow> jsval \<Rightarrow> (error + jsval) \<times> heap" where
  "toHaveProperties x h this properties =
     (case properties of
        VRef a \<Rightarrow>
          (case obj_at h a of
             Some (OArray props) \<Rightarrow>
               (case forEach_property x h this props of
                  Some e \<Rightarrow> (Inl e, h)
                | None \<Rightarrow> (Inr this, h))
           | _ \<Rightarrow> (Inl TypeError, h))
      | _ \<Rightarrow> (Inl TypeError, h))"

text \<open>The callback of \<^verbatim>\<open>Object.keys(schema).forEach\<close>.\<close>

fun forEach_schema_key ::
  "externals \<Rightarrow> heap \<Rightarrow> jsval \<Rightarrow> jsval \<Rightarrow> string list \<Rightarrow> error option" where
  "forEach_schema_key x h this schema [] = None"
| "forEach_schema_key x h this schema (key # keys) =
     (case actual_field h this ''data'' of
        Inl e \<Rightarrow> Some e
      | Inr data \<Rightarrow>
          if \<not> to_have_property x h data (VStr key) then Some AssertionError
          else
            (case get_member x h schema key of
               Inl e \<Rightarrow> Some e
             | Inr expected \<Rightarrow>
                 if typeof_val expected = ''object'' \<and> expected \<noteq> VNull then
                   (case get_member x h data key of
                      Inl e \<Rightarrow> Some e
                    | Inr found \<Rightarrow>
                        if to_be_an x h found (typeof_val expected)
                        then forEach_schema_key x h this schema keys
                        else Some AssertionError)
                 else forEach_schema_key x h this schema keys))"

definition toMatchSchema :: "externals \<Rightarrow> heap \<Rightarrow> jsval \<Rightarrow> jsval \<Rightarrow> (error + jsval) \<times> heap" where
  "toMatchSchema x h this schema =
     (case object_keys h schema of
        Inl e \<Rightarrow> (Inl e, h)
      | Inr keys \<Rightarrow>
          (case forEach_schema_key x h this schema keys of
             Some e \<Rightarrow> (Inl e, h)
           | None \<Rightarrow> (Inr this, h)))"

definition toBeArray :: "externals \<Rightarrow> heap \<Rightarrow> jsval \<Rightarrow> (error + jsval) \<times> heap" where
  "toBeArray x h this =
     (case actual_field h this ''data'' of
        Inl e \<Rightarrow> (Inl e, h)
      | Inr data \<Rightarrow>
          if to_be_an x h data ''array'' then (Inr this, h) else (Inl AssertionError, h))"

definition toHaveLength :: "externals \<Rightarrow> heap \<Rightarrow> jsval \<Rightarrow> jsval \<Rightarrow> (error + jsval) \<times> heap" where
  "toHaveLength x h this len =
     (case actual_field h this ''data'' of
        Inl e \<Rightarrow> (Inl e, h)
      | Inr data \<Rightarrow>
          if to_have_lengthOf x h data len then (Inr this, h) else (Inl AssertionError, h))"

definition toBeObject :: "externals \<Rightarrow> heap \<Rightarrow> jsval \<Rightarrow> (error + jsval) \<times> heap" where
  "toBeObject x h this =
     (case actual_field h this ''data'' of
        Inl e \<Rightarrow> (Inl e, h)
      | Inr data \<Rightarrow>
          if to_be_an x h data ''object'' then (Inr this, h) else (Inl AssertionError, h))"

definition toHaveHeader ::
  "externals \<Rightarrow> heap \<Rightarrow> jsval \<Rightarrow> jsval \<Rightarrow> jsval \<Rightarrow> (error + jsval) \<times> heap" where
  "toHaveHeader x h this headerName headerValue =
     (case actual_field h this ''headers'' of
        Inl e \<Rightarrow> (Inl e, h)
      | Inr hs \<Rightarrow>
          (case toLowerCase headerName of
             Inl e \<Rightarrow> (Inl e, h)
           | Inr name \<Rightarrow>
               if \<not> to_have_property x h hs (VStr name) then (Inl AssertionError, h)
               else if headerValue \<noteq> VUndefined then
                 (case get_member x h hs name of
                    Inl e \<Rightarrow> (Inl e, h)
                  | Inr found \<Rightarrow>
                      if to_equal x h found headerValue then (Inr this, h)
                      else (Inl AssertionError, h))
               else (Inr this, h)))"

definition toContain :: "externals \<Rightarrow> heap \<Rightarrow> jsval \<Rightarrow> jsval \<Rightarrow> (error + jsval) \<times> heap" where
  "toContain x h this expectedData =
     (case actual_field h this ''data'' of
        Inl e \<Rightarrow> (Inl e, h)
      | Inr data \<Rightarrow>
          if to_deep_include x h data expectedData then (Inr this, h)
          else (Inl AssertionError, h))"

definition toEqual :: "externals \<Rightarrow> heap \<Rightarrow> jsval \<Rightarrow> jsval \<Rightarrow> (error + jsval) \<times> heap" where
  "toEqual x h this expectedData =
     (case actual_field h this ''data'' of
        Inl e \<Rightarrow> (Inl e, h)
      | Inr data \<Rightarrow>
          if to_deep_equal x h data expectedData then (Inr this, h)
          else (Inl AssertionError, h))"

definition toRespondWithin :: "externals \<Rightarrow> heap \<Rightarrow> jsval \<Rightarrow> jsval \<Rightarrow> (error + jsval) \<times> heap" where
  "toRespondWithin x h this maxTime =
     (case actual_field h this ''responseTime'' of
        Inl e \<Rightarrow> (Inl e, h)
      | Inr responseTime \<Rightarrow>
          if responseTime \<noteq> VUndefined then
            (if to_be_below x h responseTime maxTime then (Inr this, h)
             else (Inl AssertionError, h))
          else (Inr this, h))"

text \<open>The method \<^verbatim>\<open>and()\<close>.\<close>

definition and_then :: "heap \<Rightarrow> jsval \<Rightarrow> (error + jsval) \<times> heap" where
  "and_then h this = (Inr this, h)"

definition getActual :: "heap \<Rightarrow> jsval \<Rightarrow> (error + jsval) \<times> heap" where
  "getActual h this = (get_field h this ''actual'', h)"

text \<open>
  A call chain \<^verbatim>\<open>a.m1(...).m2(...)\<close>: each method is invoked on what the one before
  returned, and a throw ends the chain.
\<close>

datatype check =
  ToHaveStatus jsval | ToHaveStatusInRange jsval jsval | ToHaveBody | ToHaveEmptyBody
  | ToHaveProperty jsval | ToHaveProperties jsval | ToMatchSchema jsval | ToBeArray
  | ToHaveLength jsval | ToBeObject | ToHaveHeader jsval jsval | ToContain jsval
  | ToEqual jsval | ToRespondWithin jsval | And

fun invoke :: "externals \<Rightarrow> heap \<Rightarrow> jsval \<Rightarrow> check \<Rightarrow> (error + jsval) \<times> heap" where
  "invoke x h this (ToHaveStatus s) = toHaveStatus x h this s"
| "invoke x h this (ToHaveStatusInRange lo hi) = toHaveStatusInRange x h this lo hi"
| "invoke x h this ToHaveBody = toHaveBody x h this"
| "invoke x h this ToHaveEmptyBody = toHaveEmptyBody x h this"
| "invoke x h this (ToHaveProperty p) = toHaveProperty x h this p"
| "invoke x h this (ToHaveProperties ps) = toHaveProperties x h this ps"
| "invoke x h this (ToMatchSchema s) = toMatchSchema x h this s"
| "invoke x h this ToBeArray = toBeArray x h this"
| "invoke x h this (ToHaveLength n) = toHaveLength x h this n"
| "invoke x h this ToBeObject = toBeObject x h this"
| "invoke x h this (ToHaveHeader n v) = toHaveHeader x h this n v"
| "invoke x h this (ToContain d) = toContain x h this d"
| "invoke x h this (ToEqual d) = toEqual x h this d"
| "invoke x h this (ToRespondWithin t) = toRespondWithin x h this t"
| "invoke x h this And = and_then h this"

fun chain :: "externals \<Rightarrow> heap \<Rightarrow> jsval \<Rightarrow> check list \<Rightarrow> (error + jsval) \<times> heap" where
  "chain x h this [] = (Inr this, h)"
| "chain x h this (c # cs) =
     (case invoke x h this c of
        (Inl e, h') \<Rightarrow> (Inl e, h')
      | (Inr next, h') \<Rightarrow> chain x h' next cs)"


text \<open>
  An instance of the parameters, for running the class on concrete inputs. \<^verbatim>\<open>equal\<close>
  and \<^verbatim>\<open>oneOf\<close> compare with \<^verbatim>\<open>===\<close>, as chai documents them (primitives by value,
  objects by reference; \<^verbatim>\<open>oneOf\<close> is \<^verbatim>\<open>list.indexOf(target) > -1\<close>);
  \<^verbatim>\<open>a\<close>/\<^verbatim>\<open>an\<close> compares the detected type; \<^verbatim>\<open>property\<close> asks for
  \<^verbatim>\<open>name in Object(target)\<close>; \<^verbatim>\<open>lengthOf\<close> compares the \<^verbatim>\<open>length\<close> property with
  the number given; \<^verbatim>\<open>within\<close> and \<^verbatim>\<open>below\<close> compare numbers; the deep comparisons
  follow the structure up to the depth of the heap. Of the inherited names of a primitive
  only those of \<^verbatim>\<open>Object.prototype\<close> are known to it.
\<close>

fun type_detect :: "heap \<Rightarrow> jsval \<Rightarrow> string" where
  "type_detect h VUndefined = ''undefined''"
| "type_detect h VNull = ''null''"
| "type_detect h (VBool b) = ''boolean''"
| "type_detect h (VNum n) = ''number''"
| "type_detect h (VStr s) = ''string''"
| "type_detect h (VNative f) = ''function''"
| "type_detect h (VRef a) = (case obj_at h a of Some (OArray xs) \<Rightarrow> ''array'' | _ \<Rightarrow> ''object'')"

fun is_array_ref :: "heap \<Rightarrow> jsval \<Rightarrow> bool" where
  "is_array_ref h (VRef a) = (case obj_at h a of Some (OArray xs) \<Rightarrow> True | _ \<Rightarrow> False)"
| "is_array_ref h v = False"

definition inherited_keys :: "heap \<Rightarrow> jsval \<Rightarrow> string list" where
  "inherited_keys h v =
     (if is_array_ref h v then array_prototype_keys @ object_prototype_keys
      else object_prototype_keys)"

fun deep_eql :: "nat \<Rightarrow> heap \<Rightarrow> jsval \<Rightarrow> jsval \<Rightarrow> bool" where
  "deep_eql 0 h a b = (a = b)"
| "deep_eql (Suc n) h a b =
     (a = b \<or>
      (case (a, b) of
         (VRef p, VRef q) \<Rightarrow>
           (case (obj_at h p, obj_at h q) of
              (Some (OArray xs), Some (OArray ys)) \<Rightarrow> list_all2 (deep_eql n h) xs ys
            | (Some (OObject ps), Some (OObject qs)) \<Rightarrow>
                set (map fst ps) = set (map fst qs) \<and>
                list_all (\<lambda>k. case (map_of ps k, map_of qs k) of
                                (Some u, Some v) \<Rightarrow> deep_eql n h u v
                              | _ \<Rightarrow> False) (map fst ps)
            | _ \<Rightarrow> False)
       | _ \<Rightarrow> False))"

definition deep_include :: "heap \<Rightarrow> jsval \<Rightarrow> jsval \<Rightarrow> bool" where
  "deep_include h target expected =
     (case target of
        VRef p \<Rightarrow>
          (case obj_at h p of
             Some (OArray xs) \<Rightarrow> list_ex (\<lambda>u. deep_eql (length h) h u expected) xs
           | Some (OObject ps) \<Rightarrow>
               (case expected of
                  VRef q \<Rightarrow>
                    (case obj_at h q of
                       Some (OObject qs) \<Rightarrow>
                         list_all (\<lambda>(k, v). case map_of ps k of
                                              Some u \<Rightarrow> deep_eql (length h) h u v
                                            | None \<Rightarrow> False) qs
                     | _ \<Rightarrow> False)
                | _ \<Rightarrow> False)
           | None \<Rightarrow> False)
      | _ \<Rightarrow> False)"

definition chai :: externals where
  "chai =
     \<lparr>to_equal = (\<lambda>h target expected. target = expected),
      to_be_within = (\<lambda>h target lo hi.
        case (target, lo, hi) of (VNum n, VNum l, VNum u) \<Rightarrow> l \<le> n \<and> n \<le> u | _ \<Rightarrow> False),
      to_be_undefined = (\<lambda>h target. target = VUndefined),
      to_be_null = (\<lambda>h target. target = VNull),
      to_be_oneOf = (\<lambda>h target list.
        case list of
          VRef a \<Rightarrow> (case obj_at h a of Some (OArray xs) \<Rightarrow> target \<in> set xs | _ \<Rightarrow> False)
        | _ \<Rightarrow> False),
      to_have_property = (\<lambda>h target name.
        case name of
          VStr key \<Rightarrow> target \<noteq> VUndefined \<and> target \<noteq> VNull \<and>
            (case own_member h target key of
               Some m \<Rightarrow> True
             | None \<Rightarrow> key \<in> set (inherited_keys h target))
        | _ \<Rightarrow> False),
      to_be_an = (\<lambda>h target type. type_detect h target = map lower_char type),
      to_have_lengthOf = (\<lambda>h target n.
        case own_member h target ''length'' of Some len \<Rightarrow> typeof_val n = ''number'' \<and> len = n
        | None \<Rightarrow> False),
      to_deep_include = deep_include,
      to_deep_equal = (\<lambda>h target expected. deep_eql (length h) h target expected),
      to_be_below = (\<lambda>h target limit.
        case (target, limit) of (VNum n, VNum m) \<Rightarrow> n < m | _ \<Rightarrow> False),
      prototype_member = (\<lambda>h target key.
        if key \<in> set (inherited_keys h target) then VNative key else VUndefined)\<rparr>"


section \<open>Transport client\<close>

text \<open>
  The class \<^verbatim>\<open>HttpClient\<close>. An instance owns an axios instance, whose \<^verbatim>\<open>defaults\<close>
  (base URL, timeout, the headers sent with every request) are the state the setters
  change, and a logger; the calls made to the logger are recorded, level and message (the
  logger is one whose methods return, as those of \<^verbatim>\<open>ConsoleLogger\<close> do). The transport
  itself is a parameter: given the current defaults and a call it answers or fails.
\<close>

datatype level = Debug | Error

datatype verb = GET | POST | PUT | PATCH | DELETE | HEAD | OPTIONS

record call =
  call_method :: verb
  call_url :: string
  call_data :: "json option"
  call_headers :: "string \<rightharpoonup> string"

record http_response =
  response_status :: int
  response_data :: json
  response_headers :: "string \<rightharpoonup> string"

record failure =
  failure_status :: "int option"
  failure_code :: "string option"

type_synonym transport =
  "string \<Rightarrow> int \<Rightarrow> (string \<rightharpoonup> string) \<Rightarrow> call \<Rightarrow> failure + http_response"

record http_client =
  defaults_baseURL :: string
  defaults_timeout :: int
  defaults_headers_common :: "string \<rightharpoonup> string"
  logger_calls :: "(level \<times> string) list"

definition logger_debug :: "string \<Rightarrow> http_client \<Rightarrow> http_client" where
  "logger_debug message c = c\<lparr>logger_calls := logger_calls c @ [(Debug, message)]\<rparr>"

definition logger_error :: "string \<Rightarrow> http_client \<Rightarrow> http_client" where
  "logger_error message c = c\<lparr>logger_calls := logger_calls c @ [(Error, message)]\<rparr>"

fun verb_name :: "verb \<Rightarrow> string" where
  "verb_name GET = ''GET''"
| "verb_name POST = ''POST''"
| "verb_name PUT = ''PUT''"
| "verb_name PATCH = ''PATCH''"
| "verb_name DELETE = ''DELETE''"
| "verb_name HEAD = ''HEAD''"
| "verb_name OPTIONS = ''OPTIONS''"

text \<open>
  How a call can reject: with the failure the transport reports, or with an exception thrown
  on the way.
\<close>

datatype rejection = Failed failure | Thrown error

text \<open>
  A verb method hands the call to the axios instance; the request interceptor logs before
  the transport runs, the response interceptor after it. On a response the interceptor
  first builds the metadata of its log call, where
  \<^verbatim>\<open>JSON.stringify(response.data).length\<close> raises a \<^verbatim>\<open>TypeError\<close> for a body that is
  \<^verbatim>\<open>undefined\<close>: then nothing is logged and the call rejects with that error.
\<close>

definition request ::
  "transport \<Rightarrow> http_client \<Rightarrow> call \<Rightarrow> (rejection + http_response) \<times> http_client" where
  "request axios c call =
     (let c1 = logger_debug (''Making '' @ verb_name (call_method call) @ '' request to ''
                              @ call_url call) c
      in case axios (defaults_baseURL c1) (defaults_timeout c1) (defaults_headers_common c1) call of
           Inr response \<Rightarrow>
             if response_data response = JUndefined then (Inl (Thrown TypeError), c1)
             else
               (Inr response,
                logger_debug (''Received '' @ show_int (response_status response)
                              @ '' response from '' @ call_url call) c1)
         | Inl err \<Rightarrow>
             (Inl (Failed err),
              logger_error (''HTTP Error: '' @
                 (case failure_status err of
                    Some s \<Rightarrow> if s \<noteq> 0 then show_int s else ''Unknown''
                  | None \<Rightarrow> ''Unknown'')) c1))"

text \<open>
  The verb methods. An omitted \<^verbatim>\<open>config\<close> is the empty object, an omitted \<^verbatim>\<open>data\<close>
  (\<open>None\<close>) the empty object as well.
\<close>

definition get :: "transport \<Rightarrow> http_client \<Rightarrow> string \<Rightarrow> (string \<rightharpoonup> string) \<Rightarrow>
    (rejection + http_response) \<times> http_client" where
  "get axios c url cfg =
     request axios c \<lparr>call_method = GET, call_url = url, call_data = None, call_headers = cfg\<rparr>"

definition post :: "transport \<Rightarrow> http_client \<Rightarrow> string \<Rightarrow> json option \<Rightarrow>
    (string \<rightharpoonup> string) \<Rightarrow> (rejection + http_response) \<times> http_client" where
  "post axios c url body cfg =
     request axios c
       \<lparr>call_method = POST, call_url = url,
        call_data = Some (case body of None \<Rightarrow> JObj [] | Some d \<Rightarrow> d), call_headers = cfg\<rparr>"

definition put :: "transport \<Rightarrow> http_client \<Rightarrow> string \<Rightarrow> json option \<Rightarrow>
    (string \<rightharpoonup> string) \<Rightarrow> (rejection + http_response) \<times> http_client" where
  "put axios c url body cfg =
     request axios c
       \<lparr>call_method = PUT, call_url = url,
        call_data = Some (case body of None \<Rightarrow> JObj [] | Some d \<Rightarrow> d), call_headers = cfg\<rparr>"

definition patch :: "transport \<Rightarrow> http_client \<Rightarrow> string \<Rightarrow> json option \<Rightarrow>
    (string \<rightharpoonup> string) \<Rightarrow> (rejection + http_response) \<times> http_client" where
  "patch axios c url body cfg =
     request axios c
       \<lparr>call_method = PATCH, call_url = url,
        call_data = Some (case body of None \<Rightarrow> JObj [] | Some d \<Rightarrow> d), call_headers = cfg\<rparr>"

definition delete :: "transport \<Rightarrow> http_client \<Rightarrow> string \<Rightarrow> (string \<rightharpoonup> string) \<Rightarrow>
    (rejection + http_response) \<times> http_client" where
  "delete axios c url cfg =
     request axios c
       \<lparr>call_method = DELETE, call_url = url, call_data = None, call_headers = cfg\<rparr>"

definition head :: "transport \<Rightarrow> http_client \<Rightarrow> string \<Rightarrow> (string \<rightharpoonup> string) \<Rightarrow>
    (rejection + http_response) \<times> http_client" where
  "head axios c url cfg =
     request axios c \<lparr>call_method = HEAD, call_url = url, call_data = None, call_headers = cfg\<rparr>"

definition options :: "transport \<Rightarrow> http_client \<Rightarrow> string \<Rightarrow> (string \<rightharpoonup> string) \<Rightarrow>
    (rejection + http_response) \<times> http_client" where
  "options axios c url cfg =
     request axios c
       \<lparr>call_method = OPTIONS, call_url = url, call_data = None, call_headers = cfg\<rparr>"

text \<open>The setters: an assignment to the defaults, then a call of \<^verbatim>\<open>logger.debug\<close>.\<close>

definition setDefaultHeaders :: "http_client \<Rightarrow> (string \<rightharpoonup> string) \<Rightarrow> http_client" where
  "setDefaultHeaders c hs =
     logger_debug ''Updated default headers''
       (c\<lparr>defaults_headers_common := defaults_headers_common c ++ hs\<rparr>)"

definition setAuthorization :: "http_client \<Rightarrow> string \<Rightarrow> string option \<Rightarrow> http_client" where
  "setAuthorization c token type =
     logger_debug ''Set authorization header''
       (c\<lparr>defaults_headers_common := (defaults_headers_common c)
             (''Authorization'' \<mapsto> (case type of None \<Rightarrow> ''Bearer'' | Some t \<Rightarrow> t) @ '' '' @ token)\<rparr>)"

definition clearAuthorization :: "http_client \<Rightarrow> http_client" where
  "clearAuthorization c =
     logger_debug ''Cleared authorization header''
       (c\<lparr>defaults_headers_common := (defaults_headers_common c)(''Authorization'' := None)\<rparr>)"

definition setBaseUrl :: "http_client \<Rightarrow> string \<Rightarrow> http_client" where
  "setBaseUrl c url = logger_debug ''Updated base URL'' (c\<lparr>defaults_baseURL := url\<rparr>)"

definition getConfig :: "http_client \<Rightarrow> string \<times> int \<times> (string \<rightharpoonup> string)" where
  "getConfig c = (defaults_baseURL c, defaults_timeout c, defaults_headers_common c)"

text \<open>The operations of an instance, and a sequence of them performed in order.\<close>

datatype client_op =
  Request call | SetDefaultHeaders "string \<rightharpoonup> string" | SetAuthorization string "string option"
  | ClearAuthorization | SetBaseUrl string

fun perform :: "transport \<Rightarrow> http_client \<Rightarrow> client_op \<Rightarrow> http_client" where
  "perform axios c (Request call) = snd (request axios c call)"
| "perform axios c (SetDefaultHeaders hs) = setDefaultHeaders c hs"
| "perform axios c (SetAuthorization token type) = setAuthorization c token type"
| "perform axios c ClearAuthorization = clearAuthorization c"
| "perform axios c (SetBaseUrl url) = setBaseUrl c url"

fun perform_all :: "transport \<Rightarrow> http_client \<Rightarrow> client_op list \<Rightarrow> http_client" where
  "perform_all axios c [] = c"
| "perform_all axios c (op # ops) = perform_all axios (perform axios c op) ops"

text \<open>The operations that do not assign or delete the default \<^verbatim>\<open>Authorization\<close>.\<close>

fun keeps_authorization :: "client_op \<Rightarrow> bool" where
  "keeps_authorization (Request call) = True"
| "keeps_authorization (SetDefaultHeaders hs) = (hs ''Authorization'' = None)"
| "keeps_authorization (SetAuthorization token type) = False"
| "keeps_authorization ClearAuthorization = False"
| "keeps_authorization (SetBaseUrl url) = True"


section \<open>Example inputs\<close>

text \<open>
  Heaps holding a response and its body: a post, an empty list and an empty string. The
  response is the last object of each.
\<close>

definition post_response :: heap where
  "post_response =
     [OObject [(''id'', VNum 1), (''title'', VStr ''x'')],
      OObject [(''status'', VNum 200), (''data'', VRef 0)]]"

definition empty_list_response :: heap where
  "empty_list_response =
     [OArray [],
      OObject [(''status'', VNum 200), (''data'', VRef 0)]]"

definition no_content_response :: heap where
  "no_content_response = [OObject [(''status'', VNum 204), (''data'', VStr [])]]"

text \<open>
  An operation that fails on its first two invocations and succeeds from the third on, and
  one that fails always.
\<close>

definition flaky :: "(string, string, nat) operation" where
  "flaky n = (if n < 2 then Inl ''ECONNRESET'' else Inr ''ok'', Suc n)"

definition always_fails :: "(string, string, unit) operation" where
  "always_fails u = (Inl ''ECONNRESET'', u)"

text \<open>The configuration with a staging environment that overrides and adds a header.\<close>

definition config_with_env_headers :: configuration where
  "config_with_env_headers =
     config\<lparr>environments := (environments config)(''staging'' \<mapsto>
        \<lparr>env_baseUrl = Some ''https://jsonplaceholder-staging.typicode.com'',
         env_headers = Some [''Accept'' \<mapsto> ''text/plain'', ''X-Env'' \<mapsto> ''staging''],
         env_timeout = Some 10000, env_retry = None\<rparr>)\<rparr>"

text \<open>A transport that knows one resource, and a client as the test suite creates it.\<close>

definition jsonplaceholder :: transport where
  "jsonplaceholder base_url time_limit common call =
     (if call_url call = ''/posts/4''
      then Inr \<lparr>response_status = 200, response_data = JObj [], response_headers = Map.empty\<rparr>
      else Inl \<lparr>failure_status = Some 404, failure_code = None\<rparr>)"

definition test_client :: http_client where
  "test_client =
     \<lparr>defaults_baseURL = ''https://jsonplaceholder.typicode.com'',
      defaults_timeout = 15000,
      defaults_headers_common = [''Accept'' \<mapsto> ''application/json, text/plain, */*''],
      logger_calls = []\<rparr>"


section \<open>Retry with exponential backoff: proofs\<close>

lemma increment_attempt_number: "increment (attempt_number j) = attempt_number (Suc j)"
  by (simp add: increment_def attempt_number_def min_def)

lemma attempt_number_le: "attempt_number j \<le> int j + 1"
  by (simp add: attempt_number_def)

lemma attempt_number_limit: "attempt_number j \<le> 2 ^ 53"
  by (simp add: attempt_number_def)


lemma attempt_number_0: "attempt_number 0 = 1"
  by (simp add: attempt_number_def)

lemma result_of_shift: "result_of fn s (Suc i) = result_of fn (snd (fn s)) i"
  by (simp add: result_of_def)

lemma fails_first:
  assumes "\<forall>i<Suc k. isl (result_of fn s i)"
  obtains e s' where "fn s = (Inl e, s')" "\<forall>i<k. isl (result_of fn s' i)"
proof -
  from assms have "isl (result_of fn s 0)" by blast
  then obtain e s' where fs: "fn s = (Inl e, s')"
    by (cases "fn s") (auto simp: result_of_def isl_def)
  have "\<forall>i<k. isl (result_of fn s' i)"
  proof (intro allI impI)
    fix i assume "i < k"
    then have "isl (result_of fn s (Suc i))" using assms by simp
    then show "isl (result_of fn s' i)" using fs by (simp add: result_of_shift)
  qed
  with fs that show thesis by blast
qed

text \<open>
  \<open>k\<close> failures and then a success: the run settles with that value. The counter is
  below \<open>maxAttempts\<close> at each failure, because the failures are fewer than
  \<open>maxAttempts\<close> or because the counter stops at \<open>2 ^ 53\<close>.
\<close>

lemma retry_loop_success:
  "int (j + k) < m \<or> 2 ^ 53 < m \<Longrightarrow> (\<forall>i<k. isl (result_of fn s i)) \<Longrightarrow>
   result_of fn s k = Inr v \<Longrightarrow>
   retry_loop fn m d (attempt_number j) s tr =
     Some \<lparr>outcome = Returned v, final = state_after fn s (Suc k),
           trace = tr @ backoff_events d j k @ [Invoke]\<rparr>"
proof (induction k arbitrary: j s tr)
  case 0
  have "attempt_number j \<le> m"
    using "0.prems"(1) attempt_number_le [of j] attempt_number_limit [of j] by auto
  with "0.prems"(3) show ?case
    by (subst retry_loop.simps) (auto simp: result_of_def split: prod.splits sum.splits)
next
  case (Suc k)
  from Suc.prems(2) obtain e s' where fs: "fn s = (Inl e, s')"
    and later: "\<forall>i<k. isl (result_of fn s' i)" by (rule fails_first)
  have res: "result_of fn s' k = Inr v"
    using Suc.prems(3) fs by (simp add: result_of_shift)
  have lt: "attempt_number j < m"
    using Suc.prems(1) attempt_number_le [of j] attempt_number_limit [of j] by auto
  have next_ok: "int (Suc j + k) < m \<or> 2 ^ 53 < m" using Suc.prems(1) by simp
  show ?case
    using Suc.IH [OF next_ok later res,
        of "tr @ [Invoke, Wait (times_number d (pow2 (nat (attempt_number j - 1))))]"]
      fs lt
    by (subst retry_loop.simps) (simp add: increment_attempt_number)
qed

text \<open>Failures up to attempt \<open>maxAttempts\<close>, which the counter reaches: the last error is thrown.\<close>

lemma retry_loop_exhausted:
  "int (j + k) + 1 = m \<Longrightarrow> m \<le> 2 ^ 53 \<Longrightarrow> (\<forall>i<k. isl (result_of fn s i)) \<Longrightarrow>
   result_of fn s k = Inl e \<Longrightarrow>
   retry_loop fn m d (attempt_number j) s tr =
     Some \<lparr>outcome = Threw e, final = state_after fn s (Suc k),
           trace = tr @ backoff_events d j k @ [Invoke]\<rparr>"
proof (induction k arbitrary: j s tr)
  case 0
  then have "attempt_number j = m" by (simp add: attempt_number_def)
  with "0.prems"(4) show ?case
    by (subst retry_loop.simps) (auto simp: result_of_def split: prod.splits sum.splits)
next
  case (Suc k)
  from Suc.prems(3) obtain e' s' where fs: "fn s = (Inl e', s')"
    and later: "\<forall>i<k. isl (result_of fn s' i)" by (rule fails_first)
  have res: "result_of fn s' k = Inl e"
    using Suc.prems(4) fs by (simp add: result_of_shift)
  have lt: "attempt_number j < m"
    using Suc.prems(1) attempt_number_le [of j] by simp
  have next_ok: "int (Suc j + k) + 1 = m" using Suc.prems(1) by simp
  show ?case
    using Suc.IH [OF next_ok Suc.prems(2) later res,
        of "tr @ [Invoke, Wait (times_number d (pow2 (nat (attempt_number j - 1))))]"]
      fs lt
    by (subst retry_loop.simps) (simp add: increment_attempt_number)
qed

text \<open>A run of failures with a counter that cannot reach \<open>maxAttempts\<close> does not end.\<close>

lemma retry_loop_endless_aux:
  "retry_loop fn m d a s tr = Some r \<Longrightarrow>
   \<not> ((\<forall>i. isl (result_of fn s i)) \<and> 2 ^ 53 < m \<and> a \<le> 2 ^ 53)"
proof (induct rule: retry_loop.raw_induct [rotated, consumes 1, case_names step])
  case (step loop fn m d a s tr r)
  show ?case
  proof
    assume stuck: "(\<forall>i. isl (result_of fn s i)) \<and> 2 ^ 53 < m \<and> a \<le> 2 ^ 53"
    then have "\<forall>i<Suc 0. isl (result_of fn s i)" by blast
    then obtain e s' where fs: "fn s = (Inl e, s')" by (rule fails_first)
    have all': "\<forall>i. isl (result_of fn s' i)"
    proof
      fix i
      from stuck have "isl (result_of fn s (Suc i))" by blast
      then show "isl (result_of fn s' i)" using fs by (simp add: result_of_shift)
    qed
    have inc: "increment a \<le> 2 ^ 53" using stuck by (simp add: increment_def)
    from stuck have "a \<le> m" "a \<noteq> m" by auto
    with step(2) fs have
      "loop fn m d (increment a) s'
         (tr @ [Invoke, Wait (times_number d (pow2 (nat (a - 1))))]) = Some r"
      by simp
    from step(1) [OF this] all' stuck inc show False by blast
  qed
qed

lemma retry_loop_endless:
  "\<forall>i. isl (result_of fn s i) \<Longrightarrow> 2 ^ 53 < m \<Longrightarrow> a \<le> 2 ^ 53 \<Longrightarrow>
   retry_loop fn m d a s tr = None"
  using retry_loop_endless_aux [of fn m d a s tr] by (cases "retry_loop fn m d a s tr") auto


text \<open>What the operation does on its own: it succeeds at some attempt up to \<open>m\<close> or fails at all of them.\<close>

lemma retry_loop_shape:
  "1 \<le> attempt \<Longrightarrow> attempt \<le> m \<Longrightarrow>
   \<exists>k. attempt + int k \<le> m \<and> (\<forall>i<k. isl (result_of fn s i)) \<and>
       ((\<exists>v. result_of fn s k = Inr v) \<or> (attempt + int k = m \<and> isl (result_of fn s k)))"
proof (induction "nat (m - attempt)" arbitrary: attempt s)
  case 0
  then have "attempt = m" by simp
  then show ?case
    by (intro exI [of _ 0]) (cases "result_of fn s 0"; simp)
next
  case (Suc n)
  show ?case
  proof (cases "result_of fn s 0")
    case (Inr v)
    then show ?thesis using Suc.prems by (intro exI [of _ 0]) simp
  next
    case (Inl e)
    have "n = nat (m - (attempt + 1))" "1 \<le> attempt + 1" "attempt + 1 \<le> m"
      using Suc.hyps(2) Suc.prems by simp_all
    from Suc.hyps(1) [OF this, of "snd (fn s)"]
    obtain k where k: "attempt + 1 + int k \<le> m"
      "\<forall>i<k. isl (result_of fn (snd (fn s)) i)"
      "(\<exists>v. result_of fn (snd (fn s)) k = Inr v) \<or>
        (attempt + 1 + int k = m \<and> isl (result_of fn (snd (fn s)) k))"
      by blast
    have "\<forall>i<Suc k. isl (result_of fn s i)"
    proof (intro allI impI)
      fix i assume "i < Suc k"
      then show "isl (result_of fn s i)"
        using Inl k(2) by (cases i) (auto simp: result_of_shift)
    qed
    then show ?thesis
      using k(1,3) by (intro exI [of _ "Suc k"]) (auto simp: result_of_shift)
  qed
qed


lemma calls_backoff_events:
  "length (filter (\<lambda>ev. ev = Invoke) (backoff_events d j k)) = k"
  by (induction k arbitrary: j) simp_all






text \<open>
  A run settles when \<open>maxAttempts\<close> is at most \<open>2 ^ 53\<close>, and a run that settles is a
  sequence of failed attempts, each followed by its wait, and a last attempt.
\<close>

lemma retry_loop_settles:
  assumes "1 \<le> m" and "m \<le> 2 ^ 53"
  obtains r k where "retry_loop fn m d 1 s [] = Some r" "int k < m"
    "trace r = backoff_events d 0 k @ [Invoke]"
proof -
  from retry_loop_shape [of 1 m fn s] assms(1)
  obtain k where k: "1 + int k \<le> m" "\<forall>i<k. isl (result_of fn s i)"
    "(\<exists>v. result_of fn s k = Inr v) \<or> (1 + int k = m \<and> isl (result_of fn s k))"
    by auto
  from k(3) have "\<exists>r. retry_loop fn m d 1 s [] = Some r \<and>
      trace r = backoff_events d 0 k @ [Invoke]"
  proof
    assume "\<exists>v. result_of fn s k = Inr v"
    then obtain v where v: "result_of fn s k = Inr v" ..
    have "int (0 + k) < m \<or> 2 ^ 53 < m" using k(1) by simp
    from retry_loop_success [OF this k(2) v, of d "[]"] show ?thesis
      by (simp add: attempt_number_0)
  next
    assume a: "1 + int k = m \<and> isl (result_of fn s k)"
    then obtain e where e: "result_of fn s k = Inl e" by (auto simp: isl_def)
    have "int (0 + k) + 1 = m" using a by simp
    from retry_loop_exhausted [OF this assms(2) k(2) e, of d "[]"] show ?thesis
      by (simp add: attempt_number_0)
  qed
  with k(1) that [of _ k] show thesis by auto
qed



text \<open>
  C1 (amended). With \<open>maxAttempts \<ge> 1\<close>: if the operation fails \<open>k\<close> times and then
  succeeds (\<open>k < maxAttempts\<close>), the run settles after exactly \<open>k + 1\<close> invocations
  with the value of that attempt, in the state that attempt left (nothing runs afterwards).
  With \<open>1 \<le> maxAttempts \<le> 2 ^ 53\<close> every run settles after at most \<open>maxAttempts\<close>
  invocations, and if every attempt fails, exactly \<open>maxAttempts\<close> invocations occur and
  the error of the last attempt is thrown as it was caught.
\<close>

theorem retryWithBackoff_attempts:
  assumes "1 \<le> m"
  shows
    "(\<forall>k v. int k < m \<and> (\<forall>i<k. isl (result_of fn s i)) \<and> result_of fn s k = Inr v \<longrightarrow>
       (\<exists>r. retryWithBackoff fn (Some m) d s = Some r \<and> outcome r = Returned v \<and>
            calls r = k + 1 \<and> final r = state_after fn s (k + 1))) \<and>
     (m \<le> 2 ^ 53 \<longrightarrow>
       (\<exists>r. retryWithBackoff fn (Some m) d s = Some r \<and> calls r \<le> nat m)) \<and>
     (\<forall>e. m \<le> 2 ^ 53 \<and> (\<forall>i<nat m. isl (result_of fn s i)) \<and>
          result_of fn s (nat m - 1) = Inl e \<longrightarrow>
       (\<exists>r. retryWithBackoff fn (Some m) d s = Some r \<and> outcome r = Threw e \<and>
            calls r = nat m \<and> final r = state_after fn s (nat m)))"
proof (intro conjI allI impI)
  fix k v
  assume a: "int k < m \<and> (\<forall>i<k. isl (result_of fn s i)) \<and> result_of fn s k = Inr v"
  then have lt: "int (0 + k) < m \<or> 2 ^ 53 < m" by simp
  from a have fails: "\<forall>i<k. isl (result_of fn s i)" and v: "result_of fn s k = Inr v"
    by simp_all
  from retry_loop_success [OF lt fails v, of _ "[]"]
  show "\<exists>r. retryWithBackoff fn (Some m) d s = Some r \<and> outcome r = Returned v \<and>
      calls r = k + 1 \<and> final r = state_after fn s (k + 1)"
    by (simp add: retryWithBackoff_def attempt_number_0 calls_def calls_backoff_events)
next
  assume small: "m \<le> 2 ^ 53"
  let ?d = "case d of None \<Rightarrow> 1000 | Some d \<Rightarrow> d"
  from retry_loop_settles [OF assms small, of fn ?d s]
  obtain r k where "retry_loop fn m ?d 1 s [] = Some r" "int k < m"
    "trace r = backoff_events ?d 0 k @ [Invoke]" by blast
  then show "\<exists>r. retryWithBackoff fn (Some m) d s = Some r \<and> calls r \<le> nat m"
    by (simp add: retryWithBackoff_def calls_def calls_backoff_events)
next
  fix e
  assume a: "m \<le> 2 ^ 53 \<and> (\<forall>i<nat m. isl (result_of fn s i)) \<and>
    result_of fn s (nat m - 1) = Inl e"
  have eq: "int (0 + (nat m - 1)) + 1 = m" and suc: "Suc (nat m - 1) = nat m"
    using assms by simp_all
  from a have small: "m \<le> 2 ^ 53" and before: "\<forall>i<nat m - 1. isl (result_of fn s i)"
    and e: "result_of fn s (nat m - 1) = Inl e" by simp_all
  from retry_loop_exhausted [OF eq small before e, of _ "[]"] suc
  show "\<exists>r. retryWithBackoff fn (Some m) d s = Some r \<and> outcome r = Threw e \<and>
      calls r = nat m \<and> final r = state_after fn s (nat m)"
    by (simp add: retryWithBackoff_def attempt_number_0 calls_def calls_backoff_events)
qed

theorem retryWithBackoff_attempts_witness:
  "(1::int) \<le> 3 \<and> (3::int) \<le> 2 ^ 53 \<and>
   map_option outcome (retryWithBackoff flaky (Some 3) (Some 100) 0) = Some (Returned ''ok'') \<and>
   map_option calls (retryWithBackoff flaky (Some 3) (Some 100) 0) = Some 3 \<and>
   map_option outcome (retryWithBackoff flaky (Some 2) (Some 100) 0) =
     Some (Threw ''ECONNRESET'') \<and>
   map_option calls (retryWithBackoff flaky (Some 2) (Some 100) 0) = Some 2"
proof -
  have r0: "result_of flaky 0 0 = Inl ''ECONNRESET''"
    and r1: "result_of flaky 0 (Suc 0) = Inl ''ECONNRESET''"
    and r2: "result_of flaky 0 2 = Inr ''ok''"
    by (simp_all add: result_of_def flaky_def numeral_2_eq_2)
  have fails: "\<forall>i<2. isl (result_of flaky 0 i)"
    using r0 r1 by (auto simp: less_Suc_eq numeral_2_eq_2)
  have three: "(1::int) \<le> 3" and two: "(1::int) \<le> 2" by simp_all
  note t3 = retryWithBackoff_attempts [OF three, of flaky 0 "Some 100"]
  note t2 = retryWithBackoff_attempts [OF two, of flaky 0 "Some 100"]
  have a: "map_option outcome (retryWithBackoff flaky (Some 3) (Some 100) 0) =
      Some (Returned ''ok'') \<and>
      map_option calls (retryWithBackoff flaky (Some 3) (Some 100) 0) = Some 3"
    using t3 [THEN conjunct1, rule_format, of 2 "''ok''"] fails r2 by auto
  have b: "map_option outcome (retryWithBackoff flaky (Some 2) (Some 100) 0) =
      Some (Threw ''ECONNRESET'') \<and>
      map_option calls (retryWithBackoff flaky (Some 2) (Some 100) 0) = Some 2"
    using t2 [THEN conjunct2, THEN conjunct2, rule_format, of "''ECONNRESET''"] fails r1
    by auto
  from a b show ?thesis by simp
qed

text \<open>
  Above \<open>2 ^ 53\<close> the counter never reaches \<open>maxAttempts\<close>: with an operation that
  always fails the run does not settle, so no failure propagates and the invocations are
  not bounded by \<open>maxAttempts\<close>.
\<close>

lemma always_fails_result: "result_of always_fails u i = Inl ''ECONNRESET''"
  by (induction i arbitrary: u) (simp_all add: result_of_def always_fails_def)

theorem retryWithBackoff_attempts_counterexample:
  "(1::int) \<le> 2 ^ 53 + 2 \<and>
   (\<forall>i. result_of always_fails () i = Inl ''ECONNRESET'') \<and>
   retryWithBackoff always_fails (Some (2 ^ 53 + 2)) (Some 0) () = None"
proof -
  have "\<forall>i. isl (result_of always_fails () i)" by (simp add: always_fails_result)
  from retry_loop_endless [OF this, of "2 ^ 53 + 2" 1 0 "[]"]
  have "retryWithBackoff always_fails (Some (2 ^ 53 + 2)) (Some 0) () = None"
    by (simp add: retryWithBackoff_def)
  then show ?thesis by (simp add: always_fails_result)
qed




text \<open>
  C10. With \<open>maxAttempts \<le> 0\<close> the loop body never runs: the operation is not invoked,
  nothing is waited for, the state is untouched and the function falls off its end, so the
  promise resolves with \<open>undefined\<close>.
\<close>

theorem retryWithBackoff_no_attempts:
  assumes "m \<le> 0"
  shows "retryWithBackoff fn (Some m) d s =
           Some \<lparr>outcome = ReturnedUndefined, final = s, trace = []\<rparr> \<and>
         map_option calls (retryWithBackoff fn (Some m) d s) = Some 0"
  using assms by (simp add: retryWithBackoff_def retry_loop.simps calls_def)

theorem retryWithBackoff_no_attempts_witness:
  "(0::int) \<le> 0 \<and>
   retryWithBackoff flaky (Some 0) (Some 100) 0 =
     Some \<lparr>outcome = ReturnedUndefined, final = 0, trace = []\<rparr> \<and>
   map_option calls (retryWithBackoff flaky (Some 0) (Some 100) 0) = Some 0"
  using retryWithBackoff_no_attempts [of 0 flaky "Some 100" 0] by (simp add: calls_def)


section \<open>Config resolver: proofs\<close>

text \<open>On the configuration of the source the resolver returns for every argument.\<close>

lemma getEnvironmentConfig_returns:
  "\<exists>r. getEnvironmentConfig config environment = Inr r"
  by (simp add: getEnvironmentConfig_def lookup_environment_def config_def Let_def
      split: option.splits)

text \<open>
  A name that is neither an environment nor a property name of \<^verbatim>\<open>Object.prototype\<close>
  resolves as \<^verbatim>\<open>development\<close> does.
\<close>

lemma getEnvironmentConfig_fallback:
  "environments c name = None \<Longrightarrow> name \<notin> set object_prototype_keys \<Longrightarrow>
   getEnvironmentConfig c (Some name) = getEnvironmentConfig c (Some ''development'')"
  by (auto simp: getEnvironmentConfig_def lookup_environment_def Let_def
      split: option.splits env_lookup.splits)

text \<open>
  C3. The name \<^verbatim>\<open>toString\<close> is not a key of the environments of the source, yet the
  lookup finds the function inherited from \<^verbatim>\<open>Object.prototype\<close>, which is truthy: the
  fallback to \<^verbatim>\<open>development\<close> is not taken and the result keeps the base timeout of
  10000, where the development configuration, which an unknown name such as \<^verbatim>\<open>qa\<close>
  does get, has 15000. No exception is raised.
\<close>

theorem getEnvironmentConfig_inherited_name:
  "environments config ''toString'' = None \<and>
   map_sum id timeout (getEnvironmentConfig config (Some ''toString'')) = Inr 10000 \<and>
   map_sum id timeout (getEnvironmentConfig config (Some ''development'')) = Inr 15000 \<and>
   map_sum id timeout (getEnvironmentConfig config (Some ''qa'')) = Inr 15000 \<and>
   getEnvironmentConfig config (Some ''toString'') \<noteq>
     getEnvironmentConfig config (Some ''development'')"
proof -
  have a: "map_sum id timeout (getEnvironmentConfig config (Some ''toString'')) = Inr 10000"
    by (simp add: getEnvironmentConfig_def lookup_environment_def config_def
        object_prototype_keys_def)
  have b: "map_sum id timeout (getEnvironmentConfig config (Some ''development'')) = Inr 15000"
    by (simp add: getEnvironmentConfig_def lookup_environment_def config_def)
  have c: "map_sum id timeout (getEnvironmentConfig config (Some ''qa'')) = Inr 15000"
    by (simp add: getEnvironmentConfig_def lookup_environment_def config_def
        object_prototype_keys_def)
  have d: "environments config ''toString'' = None"
    by (simp add: config_def)
  from a b have "getEnvironmentConfig config (Some ''toString'') \<noteq>
      getEnvironmentConfig config (Some ''development'')"
    by auto
  with a b c d show ?thesis by simp
qed

text \<open>
  C4. When the chosen environment has a header set, the resolved headers are the base
  headers overridden by it: their keys are the union of both key sets, a key of the
  environment has the environment's value, and a key of the base alone keeps its value.
\<close>

theorem getEnvironmentConfig_headers:
  assumes "environments c name = Some ov" and "env_headers ov = Some eh"
  shows "\<exists>r. getEnvironmentConfig c (Some name) = Inr r \<and>
           headers r = headers c ++ eh \<and>
           dom (headers r) = dom (headers c) \<union> dom eh \<and>
           (\<forall>k v. eh k = Some v \<longrightarrow> headers r k = Some v) \<and>
           (\<forall>k. eh k = None \<longrightarrow> headers r k = headers c k)"
  using assms
  by (auto simp: getEnvironmentConfig_def lookup_environment_def Let_def map_add_def
      split: option.splits)

theorem getEnvironmentConfig_headers_witness:
  "environments config_with_env_headers ''staging'' \<noteq> None \<and>
   (\<exists>r. getEnvironmentConfig config_with_env_headers (Some ''staging'') = Inr r \<and>
      headers r ''Accept'' = Some ''text/plain'' \<and>
      headers r ''X-Env'' = Some ''staging'' \<and>
      headers r ''Content-Type'' = Some ''application/json'' \<and>
      headers r ''User-Agent'' = Some ''ModularTestFramework/1.0.0'')"
proof -
  let ?ov = "\<lparr>env_baseUrl = Some ''https://jsonplaceholder-staging.typicode.com'',
         env_headers = Some [''Accept'' \<mapsto> ''text/plain'', ''X-Env'' \<mapsto> ''staging''],
         env_timeout = Some 10000, env_retry = None\<rparr>"
  have e: "environments config_with_env_headers ''staging'' = Some ?ov"
    by (simp add: config_with_env_headers_def)
  have h: "env_headers ?ov = Some [''Accept'' \<mapsto> ''text/plain'', ''X-Env'' \<mapsto> ''staging'']"
    by simp
  have b: "headers config_with_env_headers =
      [''Content-Type'' \<mapsto> ''application/json'', ''Accept'' \<mapsto> ''application/json'',
       ''User-Agent'' \<mapsto> ''ModularTestFramework/1.0.0'']"
    by (simp add: config_with_env_headers_def config_def)
  from getEnvironmentConfig_headers [OF e h] obtain r where
    r: "getEnvironmentConfig config_with_env_headers (Some ''staging'') = Inr r"
    "headers r = headers config_with_env_headers ++
       [''Accept'' \<mapsto> ''text/plain'', ''X-Env'' \<mapsto> ''staging'']"
    by blast
  from r(2) have "headers r ''Accept'' = Some ''text/plain''"
    "headers r ''X-Env'' = Some ''staging''"
    "headers r ''Content-Type'' = Some ''application/json''"
    "headers r ''User-Agent'' = Some ''ModularTestFramework/1.0.0''"
    by (simp_all add: b map_add_def)
  with r(1) e show ?thesis by simp
qed


section \<open>Schema/response validator: proofs\<close>

lemma typeof_object:
  "typeof m = ''object'' \<Longrightarrow> m \<noteq> Value JNull \<Longrightarrow> \<exists>v. m = Value v \<and> is_object v"
  by (cases m rule: typeof.cases) simp_all

text \<open>
  On an object or array the walk never raises, and it only appends to the errors it was
  given.
\<close>

lemma validate_keys_object:
  "is_object obj \<Longrightarrow> \<exists>es. validate_keys obj path entries errs = Inr (errs @ es)"
proof (induction obj path entries errs rule: validate_keys.induct)
  case (1 obj path errors)
  then show ?case by simp
next
  case (2 obj path key expectedType rest errs)
  obtain b where b: "has_property obj key = Inr b"
    using "2.prems" by (cases obj) simp_all
  let ?fp = "full_path path key"
  let ?v = "get_property obj key"
  show ?case
  proof (cases b)
    case False
    from False b have hp: "has_property obj key = Inr False" by simp
    from "2.IH"(6) [of ?fp False] "2.prems" hp show ?thesis
      by (auto simp: Let_def)
  next
    case True
    from True b have hp: "has_property obj key = Inr True" by simp
    consider (arr) "expectedType = JStr ''array''" "\<not> isArray ?v"
      | (mismatch) "\<not> (expectedType = JStr ''array'' \<and> \<not> isArray ?v)"
          "expectedType \<noteq> JStr ''array''" "JStr (typeof ?v) \<noteq> expectedType"
      | (nested) "\<not> (expectedType = JStr ''array'' \<and> \<not> isArray ?v)"
          "\<not> (expectedType \<noteq> JStr ''array'' \<and> JStr (typeof ?v) \<noteq> expectedType)"
          "expectedType = JStr ''object''" "?v \<noteq> Value JNull"
      | (ok) "\<not> (expectedType = JStr ''array'' \<and> \<not> isArray ?v)"
          "\<not> (expectedType \<noteq> JStr ''array'' \<and> JStr (typeof ?v) \<noteq> expectedType)"
          "\<not> (expectedType = JStr ''object'' \<and> ?v \<noteq> Value JNull)"
      by blast
    then show ?thesis
    proof cases
      case arr
      from "2.IH"(1) [of ?fp True ?v "typeof ?v"] arr "2.prems" hp show ?thesis
        by (auto simp: Let_def)
    next
      case mismatch
      from "2.IH"(2) [of ?fp True ?v "typeof ?v"] mismatch "2.prems" hp show ?thesis
        by (auto simp: Let_def)
    next
      case nested
      from nested have ty: "typeof ?v = ''object''" by auto
      from typeof_object [OF ty nested(4)] obtain v where v: "?v = Value v" "is_object v"
        by blast
      from "2.IH"(3) [of ?fp True ?v "typeof ?v"] nested v hp
      obtain es where es: "validate_keys v ?fp (for_in expectedType) errs = Inr (errs @ es)"
        by auto
      from "2.IH"(4) [of ?fp True ?v "typeof ?v" "errs @ es"] nested v hp es "2.prems"
      obtain es' where "validate_keys obj path rest (errs @ es) = Inr ((errs @ es) @ es')"
        by auto
      with nested v es hp show ?thesis
        by (auto simp: Let_def)
    next
      case ok
      from "2.IH"(5) [of ?fp True ?v "typeof ?v"] ok "2.prems" hp show ?thesis
        by (auto simp: Let_def)
    qed
  qed
qed


text \<open>On any other value the first key visited raises.\<close>

lemma validate_keys_primitive:
  "\<not> is_object obj \<Longrightarrow> entries \<noteq> [] \<Longrightarrow> validate_keys obj path entries errs = Inl TypeError"
  by (cases entries; cases obj) (auto simp: Let_def)

lemma validateResponseSchema_object_data:
  assumes "read_data response = Inr d" and "is_object d"
  shows "\<exists>r. validateResponseSchema response schema = Inr r \<and> (isValid r \<longleftrightarrow> errors r = [])"
proof -
  from validate_keys_object [OF assms(2), of "[]" "for_in schema" "[]"]
  obtain es where "validate_keys d [] (for_in schema) [] = Inr es" by auto
  with assms(1) show ?thesis
    by (simp add: validateResponseSchema_def validateObject_def)
qed

lemma validateResponseSchema_primitive_data:
  assumes "read_data response = Inr d" and "\<not> is_object d" and "for_in schema \<noteq> []"
  shows "validateResponseSchema response schema = Inl TypeError"
  using assms validate_keys_primitive [OF assms(2,3), of "[]" "[]"]
  by (simp add: validateResponseSchema_def validateObject_def)

text \<open>
  Every key of the list that the target lacks is reported, wherever it stands in the list:
  the walk goes on after a violation.
\<close>

lemma validate_keys_missing:
  "is_object obj \<Longrightarrow> (key, t) \<in> set entries \<Longrightarrow> has_property obj key = Inr False \<Longrightarrow>
   validate_keys obj path entries errs = Inr es \<Longrightarrow>
   (''Missing property: '' @ full_path path key) \<in> set es"
proof (induction entries arbitrary: errs)
  case Nil
  then show ?case by simp
next
  case (Cons entry rest)
  obtain k e where entry: "entry = (k, e)" by (cases entry)
  let ?fp = "full_path path k"
  let ?v = "get_property obj k"
  obtain b where b: "has_property obj k = Inr b"
    using Cons.prems(1) by (cases obj) simp_all
  have grow: "set errs' \<subseteq> set es'"
    if "validate_keys o' p' en errs' = Inr es'" "is_object o'" for o' p' en errs' es'
    using validate_keys_object [OF that(2), of p' en errs'] that(1) by auto
  have tail: "(''Missing property: '' @ full_path path key) \<in> set es"
    if "validate_keys obj path rest errs' = Inr es"
      "(key, t) \<in> set rest \<or> (''Missing property: '' @ full_path path key) \<in> set errs'"
    for errs'
    using that Cons.IH [OF Cons.prems(1) _ Cons.prems(3), of errs'] grow [OF that(1) Cons.prems(1)]
    by auto
  show ?case
  proof (cases b)
    case False
    with b have hp: "has_property obj k = Inr False" by simp
    have "validate_keys obj path rest (errs @ [''Missing property: '' @ ?fp]) = Inr es"
      using Cons.prems(4) hp by (simp add: entry Let_def)
    moreover have "(key, t) \<in> set rest \<or>
        (''Missing property: '' @ full_path path key) \<in> set (errs @ [''Missing property: '' @ ?fp])"
      using Cons.prems(2) by (auto simp: entry)
    ultimately show ?thesis by (rule tail)
  next
    case True
    with b have hp: "has_property obj k = Inr True" by simp
    with Cons.prems(3) have "k \<noteq> key" by auto
    with Cons.prems(2) have inrest: "(key, t) \<in> set rest" by (auto simp: entry)
    consider (arr) "e = JStr ''array''" "\<not> isArray ?v"
      | (mismatch) "\<not> (e = JStr ''array'' \<and> \<not> isArray ?v)"
          "e \<noteq> JStr ''array''" "JStr (typeof ?v) \<noteq> e"
      | (nested) "\<not> (e = JStr ''array'' \<and> \<not> isArray ?v)"
          "\<not> (e \<noteq> JStr ''array'' \<and> JStr (typeof ?v) \<noteq> e)"
          "e = JStr ''object''" "?v \<noteq> Value JNull"
      | (ok) "\<not> (e = JStr ''array'' \<and> \<not> isArray ?v)"
          "\<not> (e \<noteq> JStr ''array'' \<and> JStr (typeof ?v) \<noteq> e)"
          "\<not> (e = JStr ''object'' \<and> ?v \<noteq> Value JNull)"
      by blast
    then show ?thesis
    proof cases
      case arr
      with Cons.prems(4) hp obtain errs' where "validate_keys obj path rest errs' = Inr es"
        by (auto simp: entry Let_def)
      then show ?thesis using inrest by (intro tail) auto
    next
      case mismatch
      with Cons.prems(4) hp obtain errs' where "validate_keys obj path rest errs' = Inr es"
        by (auto simp: entry Let_def)
      then show ?thesis using inrest by (intro tail) auto
    next
      case nested
      with Cons.prems(4) hp obtain errs' where "validate_keys obj path rest errs' = Inr es"
        by (auto simp: entry Let_def split: sum.splits)
      then show ?thesis using inrest by (intro tail) auto
    next
      case ok
      with Cons.prems(4) hp have "validate_keys obj path rest errs = Inr es"
        by (auto simp: entry Let_def)
      then show ?thesis using inrest by (intro tail) auto
    qed
  qed
qed

text \<open>Scenario C of the specification.\<close>

lemma scenario_C:
  "validateResponseSchema (JObj [(''data'', JObj [(''id'', JNum 1)])])
     (JObj [(''id'', JStr ''number''), (''title'', JStr ''string'')]) =
   Inr \<lparr>isValid = False, errors = [''Missing property: title'']\<rparr>"
  by (simp add: validateResponseSchema_def validateObject_def Let_def full_path_def
      object_prototype_keys_def)

text \<open>
  C5. A response whose \<^verbatim>\<open>data\<close> is \<^verbatim>\<open>null\<close>, absent (\<^verbatim>\<open>undefined\<close>) or a string
  makes the validator raise a \<^verbatim>\<open>TypeError\<close> at the first key of the schema, where
  \<^verbatim>\<open>key in obj\<close> is evaluated on a value that is not an object; no result object is
  returned. (On an object or array it returns, with \<^verbatim>\<open>isValid\<close> true exactly when there
  are no errors: \<open>validateResponseSchema_object_data\<close>.)
\<close>

theorem validateResponseSchema_null_data:
  "validateResponseSchema (JObj [(''data'', JNull)]) (JObj [(''id'', JStr ''number'')]) =
     Inl TypeError \<and>
   validateResponseSchema (JObj []) (JObj [(''id'', JStr ''number'')]) = Inl TypeError \<and>
   validateResponseSchema (JObj [(''data'', JStr ''OK'')]) (JObj [(''id'', JStr ''number'')]) =
     Inl TypeError"
  by (simp add: validateResponseSchema_def validateObject_def)

text \<open>
  C6. A key whose schema entry is a nested schema object is not walked into: the entry is
  compared with the name of the value's type, which it never equals, so one type mismatch
  is recorded for the key, whether the nested value matches the nested schema or lacks its
  keys. (Missing keys are all reported: \<open>validate_keys_missing\<close>.)
\<close>

theorem validateResponseSchema_nested_schema:
  "validateResponseSchema (JObj [(''data'', JObj [(''user'', JObj [(''name'', JStr ''x'')])])])
     (JObj [(''user'', JObj [(''name'', JStr ''string'')])]) =
   Inr \<lparr>isValid = False, errors = [''Property user should be [object Object], got object'']\<rparr> \<and>
   validateResponseSchema (JObj [(''data'', JObj [(''user'', JObj [])])])
     (JObj [(''user'', JObj [(''name'', JStr ''string'')])]) =
   Inr \<lparr>isValid = False, errors = [''Property user should be [object Object], got object'']\<rparr>"
  by (simp add: validateResponseSchema_def validateObject_def Let_def full_path_def
      object_prototype_keys_def)

text \<open>
  The nested walk starts only for the entry \<^verbatim>\<open>'object'\<close>, and then runs over the
  characters of that string.
\<close>

lemma object_type_tag:
  "validateResponseSchema (JObj [(''data'', JObj [(''user'', JObj [(''name'', JStr ''x'')])])])
     (JObj [(''user'', JStr ''object'')]) =
   Inr \<lparr>isValid = False,
        errors = [''Missing property: user.0'', ''Missing property: user.1'',
                  ''Missing property: user.2'', ''Missing property: user.3'',
                  ''Missing property: user.4'', ''Missing property: user.5'']\<rparr>"
  by (simp add: validateResponseSchema_def validateObject_def Let_def full_path_def
      object_prototype_keys_def indices_def show_nat.simps upt_rec)


section \<open>Assertion engine: proofs\<close>

text \<open>
  Each check leaves the objects of the heap as they were and, when it returns, returns
  \<^verbatim>\<open>this\<close>.
\<close>

lemma invoke_frame:
  "invoke x h this c = (r, h') \<Longrightarrow> take (length h) h' = h \<and> (\<forall>v. r = Inr v \<longrightarrow> v = this)"
  by (cases c)
    (auto simp: toHaveStatus_def toHaveStatusInRange_def toHaveBody_def toHaveEmptyBody_def
      toHaveProperty_def toHaveProperties_def toMatchSchema_def toBeArray_def toHaveLength_def
      toBeObject_def toHaveHeader_def toContain_def toEqual_def toRespondWithin_def and_then_def
      Let_def split: sum.splits if_splits option.splits jsval.splits jsobj.splits)

lemma chain_frame:
  "chain x h this cs = (r, h') \<Longrightarrow> take (length h) h' = h \<and> (\<forall>v. r = Inr v \<longrightarrow> v = this)"
proof (induction cs arbitrary: h)
  case Nil
  then show ?case by auto
next
  case (Cons c cs)
  obtain r1 h1 where i: "invoke x h this c = (r1, h1)" by (cases "invoke x h this c")
  note f = invoke_frame [OF i]
  show ?case
  proof (cases r1)
    case (Inl e)
    with Cons.prems i f show ?thesis by simp
  next
    case (Inr v)
    with f have v: "v = this" by simp
    from Cons.prems i Inr v have "chain x h1 this cs = (r, h')" by simp
    from Cons.IH [OF this] have t1: "take (length h1) h' = h1"
      and same: "\<forall>v. r = Inr v \<longrightarrow> v = this" by simp_all
    from f have t0: "take (length h) h1 = h" by simp
    then have "length (take (length h) h1) = length h" by simp
    then have le: "length h \<le> length h1" by simp
    have "take (length h) h' = take (length h) (take (length h1) h')"
      using le by (simp add: min_absorb1)
    with t1 t0 same show ?thesis by simp
  qed
qed


text \<open>
  C7. For a response whose body is an empty array \<^verbatim>\<open>toHaveEmptyBody\<close> throws: the
  empty array in the list of the check is a new object, and \<^verbatim>\<open>oneOf\<close> compares by
  reference. The same body passes \<^verbatim>\<open>toBeArray\<close> and \<^verbatim>\<open>toHaveLength(0)\<close>, and the
  check passes for the empty string.
\<close>

theorem toHaveEmptyBody_empty_array:
  "fst (toHaveEmptyBody chai (snd (expectResponse empty_list_response (VRef 1)))
          (fst (expectResponse empty_list_response (VRef 1)))) = Inl AssertionError \<and>
   fst (toBeArray chai (snd (expectResponse empty_list_response (VRef 1)))
          (fst (expectResponse empty_list_response (VRef 1)))) = Inr (VRef 2) \<and>
   fst (toHaveLength chai (snd (expectResponse empty_list_response (VRef 1)))
          (fst (expectResponse empty_list_response (VRef 1))) (VNum 0)) = Inr (VRef 2) \<and>
   fst (toHaveEmptyBody chai (snd (expectResponse no_content_response (VRef 0)))
          (fst (expectResponse no_content_response (VRef 0)))) = Inr (VRef 1)"
  by (simp add: toHaveEmptyBody_def toBeArray_def toHaveLength_def expectResponse_def
      empty_list_response_def no_content_response_def actual_field_def obj_at_def chai_def
      lower_char_def Let_def nth_append)

text \<open>
  With the membership test of chai the check passes exactly for \<^verbatim>\<open>null\<close>,
  \<^verbatim>\<open>undefined\<close> and the empty string, whatever the body refers to.
\<close>

lemma toHaveEmptyBody_passes_iff:
  assumes "actual_field h this ''data'' = Inr d" and "\<forall>a. d = VRef a \<longrightarrow> a < length h"
  shows "(\<exists>h'. toHaveEmptyBody chai h this = (Inr this, h')) \<longleftrightarrow>
           d = VNull \<or> d = VUndefined \<or> d = VStr []"
  using assms
  by (cases d) (auto simp: toHaveEmptyBody_def chai_def obj_at_def Let_def nth_append)

text \<open>
  C8. Whatever the assertions decide: a check that returns gives back the instance it was
  called on, \<^verbatim>\<open>and()\<close> returns it and leaves the heap as it is, and every check,
  passing or not, leaves each object that existed before it unchanged (the heap it leaves
  starts with the heap it found), so the snapshot is not mutated. The same holds for a
  chain of checks.
\<close>

theorem checks_return_same_instance:
  "(\<forall>c r h'. invoke x h this c = (r, h') \<longrightarrow>
      take (length h) h' = h \<and> (\<forall>v. r = Inr v \<longrightarrow> v = this)) \<and>
   invoke x h this And = (Inr this, h) \<and>
   (\<forall>cs r h'. chain x h this cs = (r, h') \<longrightarrow>
      take (length h) h' = h \<and> (\<forall>v. r = Inr v \<longrightarrow> v = this))"
  using invoke_frame [of x h this] chain_frame [of x h this]
  by (simp add: and_then_def)


theorem checks_return_same_instance_witness:
  "chain chai (snd (expectResponse post_response (VRef 1)))
     (fst (expectResponse post_response (VRef 1)))
     [ToHaveStatus (VNum 200), And, ToHaveProperty (VStr ''id'')] =
     (Inr (VRef 2), snd (expectResponse post_response (VRef 1))) \<and>
   fst (expectResponse post_response (VRef 1)) = VRef 2 \<and>
   fst (chain chai (snd (expectResponse post_response (VRef 1)))
     (fst (expectResponse post_response (VRef 1)))
     [ToHaveStatus (VNum 200), And, ToHaveProperty (VStr ''missing'')]) = Inl AssertionError"
proof -
  let ?h = "snd (expectResponse post_response (VRef 1))"
  let ?e = "fst (expectResponse post_response (VRef 1))"
  have run: "chain chai ?h ?e [ToHaveStatus (VNum 200), And, ToHaveProperty (VStr ''id'')] =
      (Inr (VRef 2), ?h)"
    by (simp add: toHaveStatus_def toHaveProperty_def and_then_def expectResponse_def
        post_response_def actual_field_def obj_at_def chai_def nth_append)
  have fail: "fst (chain chai ?h ?e
      [ToHaveStatus (VNum 200), And, ToHaveProperty (VStr ''missing'')]) = Inl AssertionError"
    by (simp add: toHaveStatus_def toHaveProperty_def and_then_def expectResponse_def
        post_response_def actual_field_def obj_at_def chai_def nth_append inherited_keys_def
        object_prototype_keys_def)
  from checks_return_same_instance [of chai ?h ?e, THEN conjunct2, THEN conjunct2,
      rule_format, OF run]
  have "VRef 2 = ?e" by simp
  with run fail show ?thesis by simp
qed

section \<open>Transport client: proofs\<close>

text \<open>A request changes the log only.\<close>

lemma request_defaults:
  "defaults_baseURL (snd (request axios c call)) = defaults_baseURL c \<and>
   defaults_timeout (snd (request axios c call)) = defaults_timeout c \<and>
   defaults_headers_common (snd (request axios c call)) = defaults_headers_common c"
  by (simp add: request_def logger_debug_def logger_error_def Let_def split: sum.splits)

lemma perform_keeps_authorization:
  "keeps_authorization op \<Longrightarrow>
   defaults_headers_common (perform axios c op) ''Authorization'' =
     defaults_headers_common c ''Authorization''"
  by (cases op)
    (simp_all add: request_defaults setDefaultHeaders_def setBaseUrl_def logger_debug_def
      map_add_def)

lemma perform_all_keeps_authorization:
  "list_all keeps_authorization ops \<Longrightarrow>
   defaults_headers_common (perform_all axios c ops) ''Authorization'' =
     defaults_headers_common c ''Authorization''"
  by (induction ops arbitrary: c) (simp_all add: perform_keeps_authorization)

lemma perform_all_requests:
  "defaults_baseURL (perform_all axios c (map Request cs)) = defaults_baseURL c \<and>
   defaults_timeout (perform_all axios c (map Request cs)) = defaults_timeout c \<and>
   defaults_headers_common (perform_all axios c (map Request cs)) = defaults_headers_common c"
  by (induction cs arbitrary: c) (simp_all add: request_defaults)

text \<open>
  C9. \<^verbatim>\<open>setAuthorization(token, type)\<close> stores \<^verbatim>\<open>type\<close>, a space and the token under
  \<^verbatim>\<open>Authorization\<close> in the default headers, with \<^verbatim>\<open>Bearer\<close> for an omitted type, and
  leaves every other default header, the base URL and the timeout as they were;
  \<^verbatim>\<open>clearAuthorization()\<close> removes the entry and changes nothing else. The entry stays
  through every sequence of requests and of setters that do not assign it, and requests
  leave all default headers unchanged.
\<close>

theorem setAuthorization_frame:
  "defaults_headers_common (setAuthorization c token type) ''Authorization'' =
     Some ((case type of None \<Rightarrow> ''Bearer'' | Some t \<Rightarrow> t) @ '' '' @ token) \<and>
   (\<forall>k. k \<noteq> ''Authorization'' \<longrightarrow>
      defaults_headers_common (setAuthorization c token type) k = defaults_headers_common c k) \<and>
   defaults_baseURL (setAuthorization c token type) = defaults_baseURL c \<and>
   defaults_timeout (setAuthorization c token type) = defaults_timeout c \<and>
   defaults_headers_common (clearAuthorization c) ''Authorization'' = None \<and>
   (\<forall>k. k \<noteq> ''Authorization'' \<longrightarrow>
      defaults_headers_common (clearAuthorization c) k = defaults_headers_common c k) \<and>
   defaults_baseURL (clearAuthorization c) = defaults_baseURL c \<and>
   defaults_timeout (clearAuthorization c) = defaults_timeout c \<and>
   (\<forall>ops. list_all keeps_authorization ops \<longrightarrow>
      defaults_headers_common (perform_all axios (setAuthorization c token type) ops)
        ''Authorization'' =
      Some ((case type of None \<Rightarrow> ''Bearer'' | Some t \<Rightarrow> t) @ '' '' @ token)) \<and>
   (\<forall>cs. defaults_headers_common (perform_all axios (setAuthorization c token type)
             (map Request cs)) =
          defaults_headers_common (setAuthorization c token type))"
proof -
  have set: "defaults_headers_common (setAuthorization c token type) ''Authorization'' =
     Some ((case type of None \<Rightarrow> ''Bearer'' | Some t \<Rightarrow> t) @ '' '' @ token)"
    by (simp add: setAuthorization_def logger_debug_def)
  have "\<forall>ops. list_all keeps_authorization ops \<longrightarrow>
      defaults_headers_common (perform_all axios (setAuthorization c token type) ops)
        ''Authorization'' =
      Some ((case type of None \<Rightarrow> ''Bearer'' | Some t \<Rightarrow> t) @ '' '' @ token)"
    using perform_all_keeps_authorization [of _ axios "setAuthorization c token type"] set
    by simp
  moreover have "\<forall>cs. defaults_headers_common (perform_all axios (setAuthorization c token type)
             (map Request cs)) =
          defaults_headers_common (setAuthorization c token type)"
    using perform_all_requests [of axios "setAuthorization c token type"] by simp
  moreover have "\<forall>k. k \<noteq> ''Authorization'' \<longrightarrow>
      defaults_headers_common (setAuthorization c token type) k = defaults_headers_common c k"
    "defaults_baseURL (setAuthorization c token type) = defaults_baseURL c"
    "defaults_timeout (setAuthorization c token type) = defaults_timeout c"
    by (simp_all add: setAuthorization_def logger_debug_def)
  moreover have "defaults_headers_common (clearAuthorization c) ''Authorization'' = None"
    "\<forall>k. k \<noteq> ''Authorization'' \<longrightarrow>
      defaults_headers_common (clearAuthorization c) k = defaults_headers_common c k"
    "defaults_baseURL (clearAuthorization c) = defaults_baseURL c"
    "defaults_timeout (clearAuthorization c) = defaults_timeout c"
    by (simp_all add: clearAuthorization_def logger_debug_def)
  ultimately show ?thesis using set by blast
qed

theorem setAuthorization_frame_witness:
  "defaults_headers_common (setAuthorization test_client ''fake-token'' None) ''Authorization'' =
     Some ''Bearer fake-token'' \<and>
   defaults_headers_common (setAuthorization test_client ''fake-token'' None) ''Accept'' =
     Some ''application/json, text/plain, */*'' \<and>
   defaults_headers_common
     (perform_all jsonplaceholder (setAuthorization test_client ''fake-token'' None)
        [Request \<lparr>call_method = DELETE, call_url = ''/posts/4'', call_data = None,
                  call_headers = Map.empty\<rparr>]) ''Authorization'' =
     Some ''Bearer fake-token'' \<and>
   defaults_headers_common
     (clearAuthorization (setAuthorization test_client ''fake-token'' None)) ''Authorization'' =
     None"
proof -
  note t = setAuthorization_frame [of test_client "''fake-token''" None jsonplaceholder]
  note u = setAuthorization_frame
    [of "setAuthorization test_client ''fake-token'' None" "''x''" None jsonplaceholder]
  have acc: "defaults_headers_common test_client ''Accept'' =
      Some ''application/json, text/plain, */*''"
    by (simp add: test_client_def)
  have keeps: "list_all keeps_authorization
      [Request \<lparr>call_method = DELETE, call_url = ''/posts/4'', call_data = None,
                call_headers = Map.empty\<rparr>]"
    by simp
  from t have "defaults_headers_common (setAuthorization test_client ''fake-token'' None)
      ''Authorization'' = Some ''Bearer fake-token''" by simp
  moreover from t acc have "defaults_headers_common
      (setAuthorization test_client ''fake-token'' None) ''Accept'' =
      Some ''application/json, text/plain, */*''" by simp
  moreover have "defaults_headers_common
     (perform_all jsonplaceholder (setAuthorization test_client ''fake-token'' None)
        [Request \<lparr>call_method = DELETE, call_url = ''/posts/4'', call_data = None,
                  call_headers = Map.empty\<rparr>]) ''Authorization'' =
     Some ''Bearer fake-token''"
    using t [THEN conjunct2, THEN conjunct2, THEN conjunct2, THEN conjunct2, THEN conjunct2,
        THEN conjunct2, THEN conjunct2, THEN conjunct2, THEN conjunct1, rule_format, OF keeps]
    by simp
  moreover from u have "defaults_headers_common
     (clearAuthorization (setAuthorization test_client ''fake-token'' None)) ''Authorization'' =
     None" by simp
  ultimately show ?thesis by simp
qed


end
